theory Spec2Isabelle
  imports Complex_Main
begin

section \<open>Exceptions\<close>

text \<open>
  Every \<^verbatim>\<open>raise\<close> of the service and of the library calls it makes is a value of
  \<open>exn\<close>; a function that can raise returns \<open>exn + 'a\<close>, with \<open>Inl\<close> the exception.
  \<open>SQLAlchemyError\<close> stands for any failure of a storage call (select, flush, commit),
  \<open>HTTPException\<close> carries the status code.
\<close>

datatype exn = ValueError | OverflowError | AttributeError | MissingGreenlet
  | SQLAlchemyError string | HTTPException nat

section \<open>Calendar dates (\<^verbatim>\<open>datetime.date\<close>)\<close>

text \<open>
  A \<^verbatim>\<open>date\<close> is a year, a month and a day of the proleptic Gregorian calendar, from
  0001-01-01 to 9999-12-31. The helper functions follow the standard library's
  \<^verbatim>\<open>_is_leap\<close>, \<^verbatim>\<open>_days_in_month\<close>, \<^verbatim>\<open>_days_before_month\<close>,
  \<^verbatim>\<open>_days_before_year\<close> and \<^verbatim>\<open>_ymd2ord\<close>.
\<close>

record date =
  year :: int
  month :: int
  day :: int

definition MINYEAR :: int where "MINYEAR = 1"
definition MAXYEAR :: int where "MAXYEAR = 9999"
definition MAXORDINAL :: int where "MAXORDINAL = 3652059"

definition is_leap :: "int \<Rightarrow> bool" where
  "is_leap y = (y mod 4 = 0 \<and> (if y mod 100 = 0 then y mod 400 = 0 else True))"

definition DAYS_IN_MONTH :: "int list" where
  "DAYS_IN_MONTH = [-1, 31, 28, 31, 30, 31, 30, 31, 31, 30, 31, 30, 31]"

definition DAYS_BEFORE_MONTH :: "int list" where
  "DAYS_BEFORE_MONTH = [-1, 0, 31, 59, 90, 120, 151, 181, 212, 243, 273, 304, 334]"

definition days_in_month :: "int \<Rightarrow> int \<Rightarrow> int" where
  "days_in_month y m = (if m = 2 \<and> is_leap y then 29 else DAYS_IN_MONTH ! nat m)"

definition days_before_month :: "int \<Rightarrow> int \<Rightarrow> int" where
  "days_before_month y m =
     DAYS_BEFORE_MONTH ! nat m + (if m > 2 \<and> is_leap y then 1 else 0)"

definition days_before_year :: "int \<Rightarrow> int" where
  "days_before_year y' =
     (let y = y' - 1 in y * 365 + y div 4 - y div 100 + y div 400)"

definition valid_date :: "date \<Rightarrow> bool" where
  "valid_date d = (MINYEAR \<le> year d \<and> year d \<le> MAXYEAR \<and> 1 \<le> month d \<and> month d \<le> 12
     \<and> 1 \<le> day d \<and> day d \<le> days_in_month (year d) (month d))"

definition toordinal :: "date \<Rightarrow> int" where
  "toordinal d = days_before_year (year d) + days_before_month (year d) (month d) + day d"

text \<open>\<^verbatim>\<open>date.weekday()\<close>: Monday is 0, Sunday is 6.\<close>

definition weekday :: "date \<Rightarrow> int" where
  "weekday d = (toordinal d + 6) mod 7"

text \<open>Dates compare as the tuples (year, month, day).\<close>

definition date_less :: "date \<Rightarrow> date \<Rightarrow> bool" where
  "date_less a b = (year a < year b \<or> (year a = year b \<and>
     (month a < month b \<or> (month a = month b \<and> day a < day b))))"

text \<open>
  \<^verbatim>\<open>date.replace(day=n)\<close> builds a new date and raises \<^verbatim>\<open>ValueError\<close> when the day
  does not exist in the month.
\<close>

definition replace_day :: "date \<Rightarrow> int \<Rightarrow> exn + date" where
  "replace_day d n =
     (if 1 \<le> n \<and> n \<le> days_in_month (year d) (month d) then Inr (d\<lparr>day := n\<rparr>)
      else Inl ValueError)"

text \<open>
  \<^verbatim>\<open>date + timedelta(days=k)\<close> is the date \<open>k\<close> days later, and raises
  \<^verbatim>\<open>OverflowError\<close> when that day lies outside 0001-01-01 .. 9999-12-31. The library
  computes it as \<^verbatim>\<open>fromordinal(toordinal() + k)\<close>; here the calendar is walked day by
  day, and \<open>date_add_toordinal\<close> below shows that the ordinal moves by exactly \<open>k\<close>.
\<close>

definition next_day :: "date \<Rightarrow> exn + date" where
  "next_day d =
     (if day d < days_in_month (year d) (month d) then Inr (d\<lparr>day := day d + 1\<rparr>)
      else if month d < 12 then Inr (d\<lparr>month := month d + 1, day := 1\<rparr>)
      else if year d < MAXYEAR then Inr (d\<lparr>year := year d + 1, month := 1, day := 1\<rparr>)
      else Inl OverflowError)"

definition prev_day :: "date \<Rightarrow> exn + date" where
  "prev_day d =
     (if 1 < day d then Inr (d\<lparr>day := day d - 1\<rparr>)
      else if 1 < month d
        then Inr (d\<lparr>month := month d - 1, day := days_in_month (year d) (month d - 1)\<rparr>)
      else if MINYEAR < year d then Inr (d\<lparr>year := year d - 1, month := 12, day := 31\<rparr>)
      else Inl OverflowError)"

fun add_days :: "date \<Rightarrow> nat \<Rightarrow> exn + date" where
  "add_days d 0 = Inr d"
| "add_days d (Suc n) = (case next_day d of Inl e \<Rightarrow> Inl e | Inr d' \<Rightarrow> add_days d' n)"

fun sub_days :: "date \<Rightarrow> nat \<Rightarrow> exn + date" where
  "sub_days d 0 = Inr d"
| "sub_days d (Suc n) = (case prev_day d of Inl e \<Rightarrow> Inl e | Inr d' \<Rightarrow> sub_days d' n)"

definition date_add :: "date \<Rightarrow> int \<Rightarrow> exn + date" where
  "date_add d k = (if 0 \<le> k then add_days d (nat k) else sub_days d (nat (- k)))"

section \<open>Period resolver (\<^verbatim>\<open>AnalyticsEngine._get_date_range\<close>)\<close>

definition get_date_range :: "string \<Rightarrow> date \<Rightarrow> exn + (date \<times> date)" where
  "get_date_range period target_date =
     (if period = ''daily'' then Inr (target_date, target_date)
      else if period = ''weekly'' then
        (case date_add target_date (- weekday target_date) of
           Inl e \<Rightarrow> Inl e
         | Inr start \<Rightarrow>
            (case date_add start 6 of
               Inl e \<Rightarrow> Inl e
             | Inr end' \<Rightarrow> Inr (start, end')))
      else
        (case replace_day target_date 1 of
           Inl e \<Rightarrow> Inl e
         | Inr start \<Rightarrow>
            (case replace_day start 28 of
               Inl e \<Rightarrow> Inl e
             | Inr d28 \<Rightarrow>
                (case date_add d28 4 of
                   Inl e \<Rightarrow> Inl e
                 | Inr next_month \<Rightarrow>
                    (case date_add next_month (- day next_month) of
                       Inl e \<Rightarrow> Inl e
                     | Inr end' \<Rightarrow> Inr (start, end'))))))"

section \<open>Floating-point numbers\<close>

text \<open>
  A Python \<^verbatim>\<open>float\<close> is a binary64 number. The model keeps a float as the real number
  it denotes and rounds the exact result of every arithmetic operation to the nearest
  binary64 number, ties to even: \<open>fl\<close>, with 53 significant bits and the subnormal
  spacing below \<open>2 powi - 1022\<close>. Infinities and NaN are not modelled; the numbers of the
  service are quotients and small multiples of counts, far below \<open>2 powi 1024\<close>.
\<close>

definition round_half_even :: "real \<Rightarrow> int" where
  "round_half_even x =
     (let n = \<lfloor>x\<rfloor>; r = x - of_int n
      in if r < 1 / 2 then n else if r > 1 / 2 then n + 1 else if even n then n else n + 1)"

definition float_exponent :: "real \<Rightarrow> int" where
  "float_exponent x = max \<lfloor>log 2 \<bar>x\<bar>\<rfloor> (- 1022)"

definition fl :: "real \<Rightarrow> real" where
  "fl x =
     (if x = 0 then 0
      else (let ulp = 2 powi (float_exponent x - 52)
            in of_int (round_half_even (x / ulp)) * ulp))"

text \<open>
  \<^verbatim>\<open>f"{x:.1f}"\<close>: the decimal with one digit after the point that is nearest to the
  float, ties to even.
\<close>

definition format_1f :: "real \<Rightarrow> real" where
  "format_1f x = of_int (round_half_even (x * 10)) / 10"

text \<open>\<^verbatim>\<open>int(x)\<close> on a float truncates towards zero.\<close>

definition py_int :: "real \<Rightarrow> int" where
  "py_int x = (if 0 \<le> x then \<lfloor>x\<rfloor> else \<lceil>x\<rceil>)"

text \<open>
  \<^verbatim>\<open>timedelta(days=x).days\<close> for a float \<open>x\<close>: the whole days are taken exactly, the
  fraction of a day is turned into microseconds with one float multiplication and
  rounded to a whole microsecond, ties to even, and the sum is normalised, so that the
  days are its floor quotient by the microseconds of a day. More than 999999999 days
  raise \<^verbatim>\<open>OverflowError\<close>.
\<close>

definition us_per_day :: int where
  "us_per_day = 86400000000"

definition timedelta_days :: "real \<Rightarrow> exn + int" where
  "timedelta_days x =
     (let intpart = py_int x;
          fracpart = x - of_int intpart;
          us = intpart * us_per_day + round_half_even (fl (of_int us_per_day * fracpart));
          days = us div us_per_day
      in if \<bar>days\<bar> > 999999999 then Inl OverflowError else Inr days)"

section \<open>ORM classes\<close>

text \<open>
  A query is built from class attributes such as \<^verbatim>\<open>ConceptProgress.status\<close>, and
  reading a name that the class does not have raises \<^verbatim>\<open>AttributeError\<close> before
  anything is sent to the database. \<open>ConceptProgress\<close> lists the attributes that
  \<^verbatim>\<open>models/progress.py\<close> declares on the class: it has \<^verbatim>\<open>started_at\<close> and
  \<^verbatim>\<open>last_accessed\<close>, and neither \<^verbatim>\<open>created_at\<close> nor \<^verbatim>\<open>last_attempted_at\<close>.
\<close>

definition ConceptProgress :: "string list" where
  "ConceptProgress = [''id'', ''student_id'', ''concept_id'', ''progress_id'', ''status'',
     ''attempts'', ''best_score'', ''last_score'', ''time_spent'', ''started_at'',
     ''completed_at'', ''mastered_at'', ''last_accessed'', ''student_progress'']"

definition getattr :: "string list \<Rightarrow> string \<Rightarrow> exn + string" where
  "getattr cls name = (if name \<in> set cls then Inr name else Inl AttributeError)"

text \<open>The attribute reads of one query expression, in the order of their evaluation.\<close>

fun getattrs :: "string list \<Rightarrow> string list \<Rightarrow> exn + unit" where
  "getattrs cls [] = Inr ()"
| "getattrs cls (name # names) =
     (case getattr cls name of Inl e \<Rightarrow> Inl e | Inr column \<Rightarrow> getattrs cls names)"

section \<open>Trend and prediction engine\<close>

text \<open>
  Each aggregate query is modelled by the attribute reads that build it, followed by what
  the storage layer answers: an exception, or the one row of the result,
  \<open>(concepts, active_days)\<close> for the velocity query, \<open>(active_days, total_days)\<close> for
  the consistency query (\<open>total_days\<close> may be NULL), and the two averages (NULL when the
  student has mastered nothing) for the efficiency query.
\<close>

definition calculate_learning_velocity :: "exn + (nat \<times> nat) \<Rightarrow> exn + real" where
  "calculate_learning_velocity result =
     (case getattrs ConceptProgress
             [''id'', ''last_attempted_at'', ''student_id'', ''status'', ''last_attempted_at''] of
        Inl e \<Rightarrow> Inl e
      | Inr built \<Rightarrow>
         (case result of
            Inl e \<Rightarrow> Inl e
          | Inr (concepts, active_days) \<Rightarrow>
             if active_days > 0 then Inr (fl (real concepts / real active_days)) else Inr 0))"

definition calculate_efficiency_score :: "real \<Rightarrow> real \<Rightarrow> real" where
  "calculate_efficiency_score avg_attempts avg_hours =
     (let attempt_score = max 0 (fl (100 - fl (fl (avg_attempts - 1) * 20)));
          time_score = max 0 (fl (100 - fl (avg_hours * 2)))
      in fl (fl (attempt_score + time_score) / 2))"

record mastery_efficiency =
  average_attempts_to_mastery :: real
  average_hours_to_mastery :: real
  efficiency_score :: real

text \<open>\<^verbatim>\<open>x or 0\<close>: a NULL average and an average of zero both become 0.\<close>

definition or_zero :: "real option \<Rightarrow> real" where
  "or_zero v = (case v of None \<Rightarrow> 0 | Some x \<Rightarrow> x)"

definition calculate_mastery_efficiency ::
    "exn + (real option \<times> real option) \<Rightarrow> exn + mastery_efficiency" where
  "calculate_mastery_efficiency result =
     (case getattrs ConceptProgress
             [''attempts'', ''mastered_at'', ''created_at'', ''student_id'', ''status'',
              ''mastered_at''] of
        Inl e \<Rightarrow> Inl e
      | Inr built \<Rightarrow>
         (case result of
            Inl e \<Rightarrow> Inl e
          | Inr (avg_attempts, avg_hours_to_mastery) \<Rightarrow>
             Inr \<lparr> average_attempts_to_mastery = fl (or_zero avg_attempts),
                   average_hours_to_mastery = fl (or_zero avg_hours_to_mastery),
                   efficiency_score =
                     calculate_efficiency_score (or_zero avg_attempts)
                       (or_zero avg_hours_to_mastery) \<rparr>))"

definition calculate_learning_consistency :: "exn + (nat \<times> int option) \<Rightarrow> exn + real" where
  "calculate_learning_consistency result =
     (case getattrs ConceptProgress
             [''last_attempted_at'', ''last_attempted_at'', ''created_at'', ''student_id''] of
        Inl e \<Rightarrow> Inl e
      | Inr built \<Rightarrow>
         (case result of
            Inl e \<Rightarrow> Inl e
          | Inr (active_days, total_days) \<Rightarrow>
             (case total_days of
                None \<Rightarrow> Inr 0
              | Some t \<Rightarrow>
                 if t \<noteq> 0 \<and> t > 0 then Inr (min 1 (fl (real active_days / real_of_int t)))
                 else Inr 0)))"

text \<open>
  The recommendation is an f-string; the model keeps which of the sentences is chosen
  and the number that appears in it, formatted with \<^verbatim>\<open>.1f\<close>:
  \<^item> \<open>NeedMoreData\<close>: "Need more learning data to make predictions";
  \<^item> \<open>OnTrack v\<close>: "At your current pace of v concepts/day, you're on track to complete soon!";
  \<^item> \<open>MaintainPace v\<close>: "Maintain your pace of v concepts/day to complete within 3 months.";
  \<^item> \<open>IncreasePace t\<close>: "Increase your pace to t concepts/day to complete within 2 months."
\<close>

datatype recommendation = NeedMoreData | OnTrack real | MaintainPace real | IncreasePace real

definition get_completion_recommendation :: "real \<Rightarrow> real \<Rightarrow> recommendation" where
  "get_completion_recommendation estimated_days velocity =
     (if estimated_days < 30 then OnTrack (format_1f velocity)
      else if estimated_days < 90 then MaintainPace (format_1f velocity)
      else (let target_velocity = fl (estimated_days / 60)
            in IncreasePace (format_1f target_velocity)))"

text \<open>
  The result dictionary; a key that the early return leaves out is \<open>None\<close>, as is the
  \<^verbatim>\<open>None\<close> stored under \<^verbatim>\<open>estimated_days\<close>.
\<close>

record prediction =
  estimated_days :: "int option"
  estimated_completion_date :: "date option"
  confidence :: string
  daily_target :: "int option"
  recommendation :: recommendation

definition predict_completion_time ::
    "date \<Rightarrow> exn + (nat \<times> nat) \<Rightarrow> exn + (nat \<times> int option) \<Rightarrow> int \<Rightarrow> exn + prediction" where
  "predict_completion_time today velocity_result consistency_result remaining_concepts =
     (case calculate_learning_velocity velocity_result of
        Inl e \<Rightarrow> Inl e
      | Inr velocity \<Rightarrow>
         if velocity \<le> 0 then
           Inr \<lparr> estimated_days = None, estimated_completion_date = None,
                 confidence = ''low'', daily_target = None,
                 recommendation = NeedMoreData \<rparr>
         else
           (let estimated_days = fl (fl (real_of_int remaining_concepts) / velocity)
            in case calculate_learning_consistency consistency_result of
                 Inl e \<Rightarrow> Inl e
               | Inr consistency \<Rightarrow>
                  (let confidence = (if consistency > fl 0.8 then ''high''
                                     else if consistency > fl 0.5 then ''medium'' else ''low'')
                   in case timedelta_days estimated_days of
                        Inl e \<Rightarrow> Inl e
                      | Inr days \<Rightarrow>
                         (case date_add today days of
                            Inl e \<Rightarrow> Inl e
                          | Inr completion \<Rightarrow>
                             Inr \<lparr> estimated_days = Some (py_int estimated_days),
                                   estimated_completion_date = Some completion,
                                   confidence = confidence,
                                   daily_target = Some (py_int velocity),
                                   recommendation =
                                     get_completion_recommendation estimated_days
                                       velocity \<rparr>))))"

section \<open>Storage: tables and the request's session\<close>

text \<open>
  The tables are keyed by their uniqueness constraints: \<^verbatim>\<open>points\<close> and \<^verbatim>\<open>streaks\<close> by
  \<^verbatim>\<open>student_id\<close> (\<^verbatim>\<open>unique=True\<close>), so each is a map from the student to the row;
  \<^verbatim>\<open>point_history\<close> is an append-only list; \<^verbatim>\<open>user_badges\<close> is the list of its
  (student, badge) pairs. Of each row the model keeps the columns that the code reads
  or writes; ids and timestamps are left out.
\<close>

type_synonym student_id = string
type_synonym badge_id = string

record Points =
  total_points :: int
  current_level :: int
  points_to_next_level :: int
  lifetime_points :: int

record PointHistory =
  history_student_id :: student_id
  history_points_awarded :: int
  history_reason :: string
  history_concept_id :: "string option"

record Streak =
  current_streak :: int
  longest_streak :: int
  last_activity_date :: "date option"
  streak_started_date :: "date option"
  total_active_days :: int

record Badge =
  badge_id :: badge_id
  badge_name :: string
  description :: string
  icon_url :: "string option"
  points_value :: int
  is_active :: bool

type_synonym UserBadge = "student_id \<times> badge_id"

record tables =
  points_tbl :: "student_id \<rightharpoonup> Points"
  point_history_tbl :: "PointHistory list"
  streaks_tbl :: "student_id \<rightharpoonup> Streak"
  user_badges_tbl :: "UserBadge list"
  badges_tbl :: "Badge list"

text \<open>
  An \<^verbatim>\<open>AsyncSession\<close> is a unit of work: \<open>committed\<close> is what the database holds,
  \<open>pending\<close> is the session's view, the committed rows with the additions and the
  attribute changes made since. Queries read \<open>pending\<close>. \<^verbatim>\<open>commit()\<close> makes the view
  the database's state or raises and changes nothing; \<^verbatim>\<open>rollback()\<close> discards the
  view. The session factory (\<^verbatim>\<open>app.core.database\<close>) is not among the sources; the
  session is taken to keep loaded rows readable after a commit
  (\<^verbatim>\<open>expire_on_commit=False\<close>), as the endpoints that return a row after committing it
  require. A rollback expires the loaded rows whatever the factory sets.
\<close>

record AsyncSession =
  committed :: tables
  pending :: tables

definition commit :: "exn option \<Rightarrow> AsyncSession \<Rightarrow> exn + AsyncSession" where
  "commit failure db =
     (case failure of Some e \<Rightarrow> Inl e | None \<Rightarrow> Inr (db\<lparr>committed := pending db\<rparr>))"

definition rollback :: "AsyncSession \<Rightarrow> AsyncSession" where
  "rollback db = db\<lparr>pending := committed db\<rparr>"

text \<open>
  Which storage calls of a request fail, and with which exception: a failing select
  fails at the request's first query, a failing flush or commit when it is reached.
\<close>

record faults =
  select_fault :: "exn option"
  flush_fault :: "exn option"
  commit_fault :: "exn option"

definition no_faults :: faults where
  "no_faults = \<lparr> select_fault = None, flush_fault = None, commit_fault = None \<rparr>"

section \<open>Points engine (\<^verbatim>\<open>PointsEngine\<close>)\<close>

text \<open>The column defaults of a new \<^verbatim>\<open>Points\<close> row.\<close>

definition default_Points :: Points where
  "default_Points = \<lparr> total_points = 0, current_level = 1, points_to_next_level = 100,
     lifetime_points = 0 \<rparr>"

text \<open>Adding a row to the session, or changing an attribute of a row it holds.\<close>

definition put_points :: "student_id \<Rightarrow> Points \<Rightarrow> AsyncSession \<Rightarrow> AsyncSession" where
  "put_points student_id points db =
     db\<lparr>pending := (pending db)\<lparr>points_tbl := (points_tbl (pending db))(student_id \<mapsto> points)\<rparr>\<rparr>"

definition add_history :: "PointHistory \<Rightarrow> AsyncSession \<Rightarrow> AsyncSession" where
  "add_history history db =
     db\<lparr>pending := (pending db)\<lparr>point_history_tbl := point_history_tbl (pending db) @ [history]\<rparr>\<rparr>"

definition get_or_create_points ::
    "faults \<Rightarrow> AsyncSession \<Rightarrow> student_id \<Rightarrow> (exn + Points) \<times> AsyncSession" where
  "get_or_create_points f db student_id =
     (case select_fault f of
        Some e \<Rightarrow> (Inl e, db)
      | None \<Rightarrow>
         (case points_tbl (pending db) student_id of
            Some points \<Rightarrow> (Inr points, db)
          | None \<Rightarrow>
             (let points = default_Points;
                  db' = put_points student_id points db
              in case flush_fault f of
                   Some e \<Rightarrow> (Inl e, db')
                 | None \<Rightarrow> (Inr points, db'))))"

text \<open>
  \<^verbatim>\<open>_check_level_up\<close> returns the level-up flag and leaves the row changed.
  \<^verbatim>\<open>math.sqrt\<close> raises \<^verbatim>\<open>ValueError\<close> on a negative argument. The float square root is
  modelled by the real one; the two have the same integer part for every total that the
  32-bit \<^verbatim>\<open>Integer\<close> column can hold.
\<close>

definition check_level_up :: "Points \<Rightarrow> exn + (bool \<times> Points)" where
  "check_level_up points =
     (if real_of_int (total_points points) / 100 < 0 then Inl ValueError
      else
        (let new_level = \<lfloor>sqrt (real_of_int (total_points points) / 100)\<rfloor> + 1 in
         if new_level > current_level points then
           Inr (True, points\<lparr>current_level := new_level,
                  points_to_next_level := new_level ^ 2 * 100 - total_points points\<rparr>)
         else
           Inr (False, points\<lparr>points_to_next_level :=
                  current_level points ^ 2 * 100 - total_points points\<rparr>)))"

record award_result =
  result_points_awarded :: int
  result_total_points :: int
  result_current_level :: int
  result_level_up :: bool

text \<open>The body of the \<^verbatim>\<open>try\<close> block of \<^verbatim>\<open>award_points\<close>.\<close>

definition award_points_try ::
    "faults \<Rightarrow> AsyncSession \<Rightarrow> student_id \<Rightarrow> int \<Rightarrow> string \<Rightarrow> string option
      \<Rightarrow> (exn + award_result) \<times> AsyncSession" where
  "award_points_try f db student_id points reason concept_id =
     (case get_or_create_points f db student_id of
        (Inl e, db1) \<Rightarrow> (Inl e, db1)
      | (Inr student_points, db1) \<Rightarrow>
         (let updated = student_points\<lparr>
                total_points := total_points student_points + points,
                lifetime_points := lifetime_points student_points + points\<rparr>;
              db2 = put_points student_id updated db1
          in case check_level_up updated of
               Inl e \<Rightarrow> (Inl e, db2)
             | Inr (level_up, levelled) \<Rightarrow>
                (let db3 = put_points student_id levelled db2;
                     history = \<lparr> history_student_id = student_id,
                                 history_points_awarded = points,
                                 history_reason = reason,
                                 history_concept_id = concept_id \<rparr>;
                     db4 = add_history history db3
                 in case commit (commit_fault f) db4 of
                      Inl e \<Rightarrow> (Inl e, db4)
                    | Inr db5 \<Rightarrow>
                       (Inr \<lparr> result_points_awarded = points,
                              result_total_points = total_points levelled,
                              result_current_level = current_level levelled,
                              result_level_up = level_up \<rparr>, db5))))"

text \<open>\<^verbatim>\<open>except Exception\<close>: log, roll the session back, re-raise.\<close>

definition award_points ::
    "faults \<Rightarrow> AsyncSession \<Rightarrow> student_id \<Rightarrow> int \<Rightarrow> string \<Rightarrow> string option
      \<Rightarrow> (exn + award_result) \<times> AsyncSession" where
  "award_points f db student_id points reason concept_id =
     (case award_points_try f db student_id points reason concept_id of
        (Inr result, db') \<Rightarrow> (Inr result, db')
      | (Inl e, db') \<Rightarrow> (Inl e, rollback db'))"

text \<open>
  The level invariant of the data model, for a row whose total the formula is defined
  on.
\<close>

definition level_invariant :: "Points \<Rightarrow> bool" where
  "level_invariant p =
     (0 \<le> total_points p
      \<and> current_level p = \<lfloor>sqrt (real_of_int (total_points p) / 100)\<rfloor> + 1
      \<and> points_to_next_level p = current_level p ^ 2 * 100 - total_points p)"

section \<open>Badge engine (\<^verbatim>\<open>BadgeEngine\<close>)\<close>

text \<open>
  The event data is a dictionary; the model keeps the keys that the criteria read, each
  absent (\<open>None\<close>) or present.
\<close>

record event_data =
  streak_days :: "int option"
  subject :: "string option"
  subject_completion :: "int option"

definition get_or :: "'a option \<Rightarrow> 'a \<Rightarrow> 'a" where
  "get_or v dflt = (case v of None \<Rightarrow> dflt | Some x \<Rightarrow> x)"

text \<open>
  \<open>mastered_today\<close> is the number of rows of the "Quick Learner" query: the student's
  concepts mastered in the trailing 24 hours.
\<close>

definition check_badge_criteria :: "nat \<Rightarrow> Badge \<Rightarrow> string \<Rightarrow> event_data \<Rightarrow> bool" where
  "check_badge_criteria mastered_today badge event_type event_data =
     (if badge_name badge = ''Quick Learner'' then
        (if event_type = ''concept_mastered'' then mastered_today \<ge> 5 else False)
      else if badge_name badge = ''Consistency King'' then
        (if event_type = ''daily_streak'' then get_or (streak_days event_data) 0 \<ge> 7
         else False)
      else if badge_name badge = ''Subject Master'' then
        (if event_type = ''concept_mastered'' then
           (case subject event_data of
              None \<Rightarrow> False
            | Some s \<Rightarrow>
               if s \<noteq> [] then get_or (subject_completion event_data) 0 \<ge> 100 else False)
         else False)
      else False)"

definition add_user_badge :: "UserBadge \<Rightarrow> AsyncSession \<Rightarrow> AsyncSession" where
  "add_user_badge user_badge db =
     db\<lparr>pending := (pending db)\<lparr>user_badges_tbl := user_badges_tbl (pending db) @ [user_badge]\<rparr>\<rparr>"

text \<open>
  \<^verbatim>\<open>_award_badge\<close>; \<open>commit_fault_of\<close> tells for each badge whether the commit of its
  award fails. The query for the existing award is \<^verbatim>\<open>scalar_one_or_none\<close>: the
  table's \<^verbatim>\<open>UniqueConstraint("student_id", "badge_id")\<close> leaves it at most one row to
  return. Beside the returned award and the session, the result tells whether
  \<^verbatim>\<open>db.rollback()\<close> ran: a rollback expires every object that the session has loaded,
  among them the \<^verbatim>\<open>Badge\<close> rows of the caller's loop.
\<close>

definition award_badge ::
    "(badge_id \<Rightarrow> exn option) \<Rightarrow> AsyncSession \<Rightarrow> student_id \<Rightarrow> Badge
      \<Rightarrow> UserBadge option \<times> AsyncSession \<times> bool" where
  "award_badge commit_fault_of db student_id badge =
     (let existing = List.find (\<lambda>ub. ub = (student_id, badge_id badge))
                       (user_badges_tbl (pending db))
      in case existing of
           Some ub \<Rightarrow> (None, db, False)
         | None \<Rightarrow>
            (let user_badge = (student_id, badge_id badge);
                 db1 = add_user_badge user_badge db
             in case commit (commit_fault_of (badge_id badge)) db1 of
                  Inr db2 \<Rightarrow> (Some user_badge, db2, False)
                | Inl e \<Rightarrow> (None, rollback db1, True)))"

record badge_info =
  info_badge_id :: badge_id
  info_name :: string
  info_description :: string
  info_icon_url :: "string option"
  info_points_value :: int

definition badge_info_of :: "Badge \<Rightarrow> badge_info" where
  "badge_info_of badge = \<lparr> info_badge_id = badge_id badge, info_name = badge_name badge,
     info_description = description badge, info_icon_url = icon_url badge,
     info_points_value = points_value badge \<rparr>"

text \<open>
  The \<^verbatim>\<open>for badge in badges\<close> loop of \<^verbatim>\<open>check_and_award_badges\<close>. \<open>expired\<close> tells
  whether the loaded \<^verbatim>\<open>Badge\<close> rows are expired. \<^verbatim>\<open>_check_badge_criteria\<close> starts by
  reading \<^verbatim>\<open>badge.criteria\<close>; on an expired row of an \<^verbatim>\<open>AsyncSession\<close> that read
  raises \<^verbatim>\<open>MissingGreenlet\<close>, which nothing in the loop catches.
\<close>

fun award_each ::
    "(badge_id \<Rightarrow> exn option) \<Rightarrow> nat \<Rightarrow> student_id \<Rightarrow> string \<Rightarrow> event_data \<Rightarrow> Badge list
      \<Rightarrow> badge_info list \<Rightarrow> bool \<Rightarrow> AsyncSession \<Rightarrow> (exn + badge_info list) \<times> AsyncSession" where
  "award_each commit_fault_of mastered_today student_id event_type event_data []
       earned_badges expired db = (Inr earned_badges, db)"
| "award_each commit_fault_of mastered_today student_id event_type event_data (badge # badges)
       earned_badges expired db =
     (if expired then (Inl MissingGreenlet, db)
      else if check_badge_criteria mastered_today badge event_type event_data then
        (case award_badge commit_fault_of db student_id badge of
           (Some user_badge, db', expired') \<Rightarrow>
             award_each commit_fault_of mastered_today student_id event_type event_data badges
               (earned_badges @ [badge_info_of badge]) expired' db'
         | (None, db', expired') \<Rightarrow>
             award_each commit_fault_of mastered_today student_id event_type event_data badges
               earned_badges expired' db')
      else
        award_each commit_fault_of mastered_today student_id event_type event_data badges
          earned_badges expired db)"

definition check_and_award_badges ::
    "exn option \<Rightarrow> (badge_id \<Rightarrow> exn option) \<Rightarrow> nat \<Rightarrow> AsyncSession \<Rightarrow> student_id \<Rightarrow> string
      \<Rightarrow> event_data \<Rightarrow> (exn + badge_info list) \<times> AsyncSession" where
  "check_and_award_badges select_failure commit_fault_of mastered_today db student_id
       event_type event_data =
     (case select_failure of
        Some e \<Rightarrow> (Inl e, db)
      | None \<Rightarrow>
         (let badges = filter is_active (badges_tbl (pending db))
          in award_each commit_fault_of mastered_today student_id event_type event_data
               badges [] False db))"

section \<open>Streak engine (the streak endpoints of the gamification router)\<close>

record current_user =
  sub :: string
  roles :: "string list"

definition put_streak :: "student_id \<Rightarrow> Streak \<Rightarrow> AsyncSession \<Rightarrow> AsyncSession" where
  "put_streak student_id streak db =
     db\<lparr>pending := (pending db)\<lparr>streaks_tbl := (streaks_tbl (pending db))(student_id \<mapsto> streak)\<rparr>\<rparr>"

text \<open>
  The column defaults of a new \<^verbatim>\<open>Streak\<close> row, filled in at insertion;
  \<^verbatim>\<open>last_activity_date\<close> defaults to \<^verbatim>\<open>date.today\<close>.
\<close>

definition default_Streak :: "date \<Rightarrow> Streak" where
  "default_Streak today = \<lparr> current_streak = 0, longest_streak = 0,
     last_activity_date = Some today, streak_started_date = None, total_active_days = 0 \<rparr>"

text \<open>
  \<^verbatim>\<open>get_student_streak\<close>. \<open>today\<close> is the value of \<^verbatim>\<open>date.today()\<close> during the request.
\<close>

definition reset_if_broken ::
    "date \<Rightarrow> faults \<Rightarrow> student_id \<Rightarrow> Streak \<Rightarrow> AsyncSession \<Rightarrow> (exn + Streak) \<times> AsyncSession" where
  "reset_if_broken today f student_id streak db =
     (case last_activity_date streak of
        None \<Rightarrow> (Inr streak, db)
      | Some last_activity \<Rightarrow>
         (case date_add today (- 1) of
            Inl e \<Rightarrow> (Inl e, db)
          | Inr yesterday \<Rightarrow>
             if date_less last_activity yesterday then
               (let streak' = streak\<lparr>current_streak := 0, streak_started_date := None\<rparr>;
                    db1 = put_streak student_id streak' db
                in case commit (commit_fault f) db1 of
                     Inl e \<Rightarrow> (Inl e, db1)
                   | Inr db2 \<Rightarrow> (Inr streak', db2))
             else (Inr streak, db)))"

definition get_student_streak ::
    "date \<Rightarrow> faults \<Rightarrow> AsyncSession \<Rightarrow> student_id \<Rightarrow> current_user
      \<Rightarrow> (exn + Streak) \<times> AsyncSession" where
  "get_student_streak today f db student_id current_user =
     (if sub current_user \<noteq> student_id \<and> ''instructor'' \<notin> set (roles current_user) then
        (Inl (HTTPException 403), db)
      else
        (case select_fault f of
           Some e \<Rightarrow> (Inl e, db)
         | None \<Rightarrow>
            (case streaks_tbl (pending db) student_id of
               None \<Rightarrow>
                 (let streak = default_Streak today;
                      db1 = put_streak student_id streak db
                  in case commit (commit_fault f) db1 of
                       Inl e \<Rightarrow> (Inl e, db1)
                     | Inr db2 \<Rightarrow> reset_if_broken today f student_id streak db2)
             | Some streak \<Rightarrow> reset_if_broken today f student_id streak db)))"

text \<open>
  \<^verbatim>\<open>update_streak\<close>. The tail shared by the two branches that do not return early:
  commit, refresh, check the streak badges, return the streak.
\<close>

definition commit_and_check_badges ::
    "faults \<Rightarrow> exn option \<Rightarrow> (badge_id \<Rightarrow> exn option) \<Rightarrow> nat \<Rightarrow> student_id \<Rightarrow> Streak
      \<Rightarrow> AsyncSession \<Rightarrow> (exn + Streak) \<times> AsyncSession" where
  "commit_and_check_badges f badge_select_failure badge_commit_fault_of mastered_today
       student_id streak db =
     (case commit (commit_fault f) db of
        Inl e \<Rightarrow> (Inl e, db)
      | Inr db1 \<Rightarrow>
         (case check_and_award_badges badge_select_failure badge_commit_fault_of mastered_today
                 db1 student_id ''daily_streak''
                 \<lparr> streak_days = Some (current_streak streak), subject = None,
                   subject_completion = None \<rparr> of
            (Inl e, db2) \<Rightarrow> (Inl e, db2)
          | (Inr earned_badges, db2) \<Rightarrow> (Inr streak, db2)))"

definition update_streak ::
    "date \<Rightarrow> faults \<Rightarrow> exn option \<Rightarrow> (badge_id \<Rightarrow> exn option) \<Rightarrow> nat \<Rightarrow> AsyncSession
      \<Rightarrow> student_id \<Rightarrow> current_user \<Rightarrow> (exn + Streak) \<times> AsyncSession" where
  "update_streak today f badge_select_failure badge_commit_fault_of mastered_today db
       student_id current_user =
     (if sub current_user \<noteq> student_id then (Inl (HTTPException 403), db)
      else
        (case select_fault f of
           Some e \<Rightarrow> (Inl e, db)
         | None \<Rightarrow>
            (case streaks_tbl (pending db) student_id of
               None \<Rightarrow>
                 (let streak = \<lparr> current_streak = 1, longest_streak = 1,
                                 last_activity_date = Some today,
                                 streak_started_date = Some today,
                                 total_active_days = 1 \<rparr>
                  in commit_and_check_badges f badge_select_failure badge_commit_fault_of
                       mastered_today student_id streak (put_streak student_id streak db))
             | Some streak \<Rightarrow>
                 if last_activity_date streak = Some today then (Inr streak, db)
                 else
                   (case date_add today (- 1) of
                      Inl e \<Rightarrow> (Inl e, db)
                    | Inr yesterday \<Rightarrow>
                       (let streak1 =
                              (if last_activity_date streak = Some yesterday then
                                 (let s = streak\<lparr>current_streak := current_streak streak + 1\<rparr>
                                  in if current_streak s > longest_streak s
                                     then s\<lparr>longest_streak := current_streak s\<rparr> else s)
                               else streak\<lparr>current_streak := 1,
                                      streak_started_date := Some today\<rparr>);
                            streak2 = streak1\<lparr>last_activity_date := Some today,
                                        total_active_days := total_active_days streak1 + 1\<rparr>
                        in commit_and_check_badges f badge_select_failure badge_commit_fault_of
                             mastered_today student_id streak2
                             (put_streak student_id streak2 db))))))"

section \<open>States used in the examples\<close>

definition empty_tables :: tables where
  "empty_tables = \<lparr> points_tbl = Map.empty, point_history_tbl = [], streaks_tbl = Map.empty,
     user_badges_tbl = [], badges_tbl = [] \<rparr>"

definition session_of :: "tables \<Rightarrow> AsyncSession" where
  "session_of t = \<lparr> committed = t, pending = t \<rparr>"

definition alice :: current_user where
  "alice = \<lparr> sub = ''alice'', roles = [] \<rparr>"

definition streak_session :: "Streak \<Rightarrow> AsyncSession" where
  "streak_session streak = session_of (empty_tables\<lparr>streaks_tbl := [''alice'' \<mapsto> streak]\<rparr>)"

definition consistency_king :: Badge where
  "consistency_king = \<lparr> badge_id = ''b1'', badge_name = ''Consistency King'',
     description = ''Learn 7 days in a row'', icon_url = None, points_value = 50,
     is_active = True \<rparr>"

definition streak_event :: "int \<Rightarrow> event_data" where
  "streak_event n = \<lparr> streak_days = Some n, subject = None, subject_completion = None \<rparr>"

text \<open>
  A (student, badge) award is held when both the database and the session's view have it.
\<close>

definition held :: "student_id \<Rightarrow> badge_id \<Rightarrow> AsyncSession \<Rightarrow> bool" where
  "held s i db = ((s, i) \<in> set (user_badges_tbl (pending db))
                  \<and> (s, i) \<in> set (user_badges_tbl (committed db)))"

section \<open>Calendar dates: properties\<close>

lemma div_step:
  fixes y n :: int assumes "0 < n"
  shows "y div n - (y - 1) div n = (if y mod n = 0 then 1 else 0)"
proof (cases "y mod n = 0")
  case True
  then obtain q where q: "y = q * n" by (metis mod_eq_0_iff_dvd dvd_def mult.commute)
  have "y - 1 = (n - 1) + (q - 1) * n" by (simp add: q algebra_simps)
  then have "(y - 1) div n = ((n - 1) + (q - 1) * n) div n" by (rule arg_cong)
  also have "\<dots> = (q - 1) + (n - 1) div n" using assms by (simp only: div_mult_self1[of n "n - 1" "q - 1"] ) 
  also have "(n - 1) div n = 0" using assms by simp
  finally show ?thesis using True assms by (simp add: q)
next
  case False
  define r where "r = y mod n"
  define q where "q = y div n"
  have y: "y = r + q * n" by (simp add: r_def q_def)
  have "0 \<le> r" "r < n" using assms by (simp_all add: r_def)
  moreover have "r \<noteq> 0" using False by (simp add: r_def)
  ultimately have r: "1 \<le> r" "r < n" by simp_all
  have "y - 1 = (r - 1) + q * n" by (simp add: y)
  then have "(y - 1) div n = ((r - 1) + q * n) div n" by (rule arg_cong)
  also have "\<dots> = q + (r - 1) div n" using assms by (simp only: div_mult_self1[of n "r - 1" q])
  also have "(r - 1) div n = 0" using r by simp
  finally show ?thesis using False by (simp add: q_def)
qed

lemma mod_400_100: "(y::int) mod 400 = 0 \<Longrightarrow> y mod 100 = 0"
  by presburger

lemma mod_100_4: "(y::int) mod 100 = 0 \<Longrightarrow> y mod 4 = 0"
  by presburger

lemma days_before_year_next:
  "days_before_year (y + 1) = days_before_year y + 365 + (if is_leap y then 1 else 0)"
proof -
  have a: "y div 4 = (y - 1) div 4 + (if y mod 4 = 0 then 1 else 0)"
    using div_step [of 4 y] by simp
  have b: "y div 100 = (y - 1) div 100 + (if y mod 100 = 0 then 1 else 0)"
    using div_step [of 100 y] by simp
  have c: "y div 400 = (y - 1) div 400 + (if y mod 400 = 0 then 1 else 0)"
    using div_step [of 400 y] by simp
  show ?thesis
    using mod_400_100 [of y] mod_100_4 [of y]
    by (auto simp add: days_before_year_def is_leap_def Let_def a b c algebra_simps)
qed


lemma month_cases:
  "1 \<le> (m::int) \<Longrightarrow> m \<le> 12 \<Longrightarrow>
   m = 1 \<or> m = 2 \<or> m = 3 \<or> m = 4 \<or> m = 5 \<or> m = 6 \<or> m = 7 \<or> m = 8 \<or> m = 9 \<or> m = 10
     \<or> m = 11 \<or> m = 12"
  by arith

lemma days_before_month_next:
  assumes "1 \<le> m" "m < 12"
  shows "days_before_month y (m + 1) = days_before_month y m + days_in_month y m"
proof -
  from assms have "m = 1 \<or> m = 2 \<or> m = 3 \<or> m = 4 \<or> m = 5 \<or> m = 6 \<or> m = 7 \<or> m = 8 \<or> m = 9
      \<or> m = 10 \<or> m = 11"
    by arith
  then show ?thesis
    by (elim disjE)
       (simp_all add: days_before_month_def days_in_month_def DAYS_BEFORE_MONTH_def
          DAYS_IN_MONTH_def)
qed

lemma days_in_year_total: "days_before_month y 12 + 31 = 365 + (if is_leap y then 1 else 0)"
  by (simp add: days_before_month_def DAYS_BEFORE_MONTH_def)

lemma days_in_month_range:
  "1 \<le> m \<Longrightarrow> m \<le> 12 \<Longrightarrow> 28 \<le> days_in_month y m \<and> days_in_month y m \<le> 31"
  by (drule (1) month_cases) (auto simp: days_in_month_def DAYS_IN_MONTH_def)

lemma next_day_toordinal:
  assumes "valid_date d" "next_day d = Inr d'"
  shows "valid_date d' \<and> toordinal d' = toordinal d + 1"
proof (cases "day d < days_in_month (year d) (month d)")
  case True
  with assms show ?thesis by (auto simp: next_day_def valid_date_def toordinal_def)
next
  case False
  note last = this
  show ?thesis
  proof (cases "month d < 12")
    case True
    with last assms have d': "d' = d\<lparr>month := month d + 1, day := 1\<rparr>"
      by (simp add: next_day_def)
    from assms have m: "1 \<le> month d" and dd: "day d = days_in_month (year d) (month d)"
      using last by (auto simp: valid_date_def)
    have "1 \<le> days_in_month (year d) (month d + 1)"
      using days_in_month_range [of "month d + 1" "year d"] m True by simp
    then show ?thesis using assms(1) True m dd
      by (simp add: d' valid_date_def toordinal_def days_before_month_next)
  next
    case False
    with last assms have d': "d' = d\<lparr>year := year d + 1, month := 1, day := 1\<rparr>"
      and y: "year d < MAXYEAR"
      by (auto simp: next_day_def split: if_splits)
    from assms False have m: "month d = 12" by (simp add: valid_date_def)
    from assms last have dd: "day d = 31"
      by (simp add: valid_date_def m days_in_month_def DAYS_IN_MONTH_def)
    have v: "valid_date d'" using assms(1) y
      by (simp add: d' valid_date_def days_in_month_def DAYS_IN_MONTH_def MINYEAR_def)
    have "toordinal d' = days_before_year (year d + 1) + 1"
      by (simp add: d' toordinal_def days_before_month_def DAYS_BEFORE_MONTH_def)
    also have "\<dots> = toordinal d + 1"
      using days_in_year_total [of "year d"]
      by (simp add: days_before_year_next toordinal_def m dd)
    finally show ?thesis using v by simp
  qed
qed

lemma days_before_year_10000: "days_before_year 10000 = MAXORDINAL"
  by (simp add: days_before_year_def MAXORDINAL_def)

lemma next_day_overflow:
  assumes "valid_date d" "next_day d = Inl e"
  shows "e = OverflowError \<and> toordinal d = MAXORDINAL"
proof -
  from assms have e: "e = OverflowError" and l: "\<not> day d < days_in_month (year d) (month d)"
    and m: "\<not> month d < 12" and y: "\<not> year d < MAXYEAR"
    by (auto simp: next_day_def split: if_splits)
  from assms(1) m y have ym: "month d = 12" "year d = 9999"
    by (simp_all add: valid_date_def MAXYEAR_def)
  with assms(1) l have "day d = 31"
    by (simp add: valid_date_def days_in_month_def DAYS_IN_MONTH_def)
  with ym have "toordinal d = MAXORDINAL"
    by (simp add: toordinal_def days_before_year_def days_before_month_def
        DAYS_BEFORE_MONTH_def is_leap_def MAXORDINAL_def)
  with e show ?thesis by simp
qed

lemma prev_day_toordinal:
  assumes "valid_date d" "prev_day d = Inr d'"
  shows "valid_date d' \<and> toordinal d' = toordinal d - 1"
proof (cases "1 < day d")
  case True
  with assms show ?thesis by (auto simp: prev_day_def valid_date_def toordinal_def)
next
  case False
  with assms(1) have dd: "day d = 1" by (simp add: valid_date_def)
  show ?thesis
  proof (cases "1 < month d")
    case True
    with dd assms have d':
      "d' = d\<lparr>month := month d - 1, day := days_in_month (year d) (month d - 1)\<rparr>"
      by (simp add: prev_day_def)
    from assms(1) have m: "month d \<le> 12" by (simp add: valid_date_def)
    have r: "28 \<le> days_in_month (year d) (month d - 1)"
      using days_in_month_range [of "month d - 1" "year d"] m True by simp
    have "days_before_month (year d) (month d - 1 + 1) =
        days_before_month (year d) (month d - 1) + days_in_month (year d) (month d - 1)"
      using True m by (intro days_before_month_next) simp_all
    then show ?thesis using assms(1) True m dd r
      by (simp add: d' valid_date_def toordinal_def)
  next
    case False
    with dd assms have d': "d' = d\<lparr>year := year d - 1, month := 12, day := 31\<rparr>"
      and y: "MINYEAR < year d"
      by (auto simp: prev_day_def split: if_splits)
    from assms False have m: "month d = 1" by (simp add: valid_date_def)
    have v: "valid_date d'" using assms(1) y
      by (simp add: d' valid_date_def days_in_month_def DAYS_IN_MONTH_def MINYEAR_def)
    have "toordinal d = days_before_year (year d - 1 + 1) + 1"
      by (simp add: toordinal_def m dd days_before_month_def DAYS_BEFORE_MONTH_def)
    also have "\<dots> = toordinal d' + 1"
      using days_in_year_total [of "year d - 1"]
      by (simp only: days_before_year_next) (simp add: toordinal_def d')
    finally show ?thesis using v by simp
  qed
qed

lemma prev_day_overflow:
  assumes "valid_date d" "prev_day d = Inl e"
  shows "e = OverflowError \<and> toordinal d = 1"
proof -
  from assms have e: "e = OverflowError" and l: "\<not> 1 < day d"
    and m: "\<not> 1 < month d" and y: "\<not> MINYEAR < year d"
    by (auto simp: prev_day_def split: if_splits)
  from assms(1) l m y have "day d = 1" "month d = 1" "year d = 1"
    by (simp_all add: valid_date_def MINYEAR_def)
  then have "toordinal d = 1"
    by (simp add: toordinal_def days_before_year_def days_before_month_def
        DAYS_BEFORE_MONTH_def)
  with e show ?thesis by simp
qed


lemma days_before_year_mono: "y \<le> z \<Longrightarrow> days_before_year y \<le> days_before_year z"
proof (induction z rule: int_ge_induct)
  case base
  show ?case by simp
next
  case (step i)
  have "days_before_year i \<le> days_before_year (i + 1)"
    by (simp add: days_before_year_next)
  with step show ?case by simp
qed

lemma days_before_month_day_le:
  assumes "1 \<le> m" "m \<le> 12" "dd \<le> days_in_month y m"
  shows "days_before_month y m + dd \<le> 365 + (if is_leap y then 1 else 0)"
  using month_cases [OF assms(1,2)] assms(3)
  by (elim disjE)
     (simp_all add: days_before_month_def days_in_month_def DAYS_BEFORE_MONTH_def
        DAYS_IN_MONTH_def split: if_splits)

lemma days_before_month_nonneg: "1 \<le> m \<Longrightarrow> m \<le> 12 \<Longrightarrow> 0 \<le> days_before_month y m"
  by (drule (1) month_cases)
     (auto simp: days_before_month_def DAYS_BEFORE_MONTH_def)

lemma toordinal_bounds:
  assumes "valid_date d"
  shows "1 \<le> toordinal d \<and> toordinal d \<le> MAXORDINAL"
proof -
  from assms have y: "1 \<le> year d" "year d \<le> 9999" and m: "1 \<le> month d" "month d \<le> 12"
    and dd: "1 \<le> day d" "day d \<le> days_in_month (year d) (month d)"
    by (simp_all add: valid_date_def MINYEAR_def MAXYEAR_def)
  have "days_before_year 1 \<le> days_before_year (year d)"
    using y(1) by (rule days_before_year_mono)
  then have lo: "0 \<le> days_before_year (year d)" by (simp add: days_before_year_def)
  have "toordinal d \<le> days_before_year (year d + 1)"
    using days_before_month_day_le [OF m dd(2)]
    by (simp add: toordinal_def days_before_year_next)
  also have "\<dots> \<le> days_before_year 10000"
    using y(2) by (intro days_before_year_mono) simp
  finally have "toordinal d \<le> MAXORDINAL" by (simp add: days_before_year_10000)
  moreover have "1 \<le> toordinal d"
    using lo days_before_month_nonneg [OF m, of "year d"] dd(1) by (simp add: toordinal_def)
  ultimately show ?thesis by simp
qed

lemma add_days_toordinal:
  "valid_date d \<Longrightarrow> add_days d k = Inr d' \<Longrightarrow>
     valid_date d' \<and> toordinal d' = toordinal d + int k"
proof (induction k arbitrary: d)
  case 0
  then show ?case by simp
next
  case (Suc k)
  from Suc.prems(2) obtain d1 where n: "next_day d = Inr d1" and r: "add_days d1 k = Inr d'"
    by (auto split: sum.splits)
  from next_day_toordinal [OF Suc.prems(1) n] Suc.IH [OF _ r] show ?case by simp
qed

lemma add_days_ok:
  "valid_date d \<Longrightarrow> toordinal d + int k \<le> MAXORDINAL \<Longrightarrow> \<exists>d'. add_days d k = Inr d'"
proof (induction k arbitrary: d)
  case 0
  then show ?case by simp
next
  case (Suc k)
  show ?case
  proof (cases "next_day d")
    case (Inl e)
    from next_day_overflow [OF Suc.prems(1) Inl] Suc.prems(2) show ?thesis by simp
  next
    case (Inr d1)
    from next_day_toordinal [OF Suc.prems(1) Inr] Suc.prems(2)
    have "valid_date d1" "toordinal d1 + int k \<le> MAXORDINAL" by simp_all
    from Suc.IH [OF this] Inr show ?thesis by simp
  qed
qed

lemma add_days_overflow:
  "valid_date d \<Longrightarrow> MAXORDINAL < toordinal d + int k \<Longrightarrow> add_days d k = Inl OverflowError"
proof (induction k arbitrary: d)
  case 0
  with toordinal_bounds [of d] show ?case by simp
next
  case (Suc k)
  show ?case
  proof (cases "next_day d")
    case (Inl e)
    from next_day_overflow [OF Suc.prems(1) Inl] Inl show ?thesis by simp
  next
    case (Inr d1)
    from next_day_toordinal [OF Suc.prems(1) Inr] Suc.prems(2)
    have "valid_date d1" "MAXORDINAL < toordinal d1 + int k" by simp_all
    from Suc.IH [OF this] Inr show ?thesis by simp
  qed
qed

lemma sub_days_toordinal:
  "valid_date d \<Longrightarrow> sub_days d k = Inr d' \<Longrightarrow>
     valid_date d' \<and> toordinal d' = toordinal d - int k"
proof (induction k arbitrary: d)
  case 0
  then show ?case by simp
next
  case (Suc k)
  from Suc.prems(2) obtain d1 where n: "prev_day d = Inr d1" and r: "sub_days d1 k = Inr d'"
    by (auto split: sum.splits)
  from prev_day_toordinal [OF Suc.prems(1) n] Suc.IH [OF _ r] show ?case by simp
qed

lemma sub_days_ok:
  "valid_date d \<Longrightarrow> 1 \<le> toordinal d - int k \<Longrightarrow> \<exists>d'. sub_days d k = Inr d'"
proof (induction k arbitrary: d)
  case 0
  then show ?case by simp
next
  case (Suc k)
  show ?case
  proof (cases "prev_day d")
    case (Inl e)
    from prev_day_overflow [OF Suc.prems(1) Inl] Suc.prems(2) show ?thesis by simp
  next
    case (Inr d1)
    from prev_day_toordinal [OF Suc.prems(1) Inr] Suc.prems(2)
    have "valid_date d1" "1 \<le> toordinal d1 - int k" by simp_all
    from Suc.IH [OF this] Inr show ?thesis by simp
  qed
qed

lemma sub_days_overflow:
  "valid_date d \<Longrightarrow> toordinal d - int k < 1 \<Longrightarrow> sub_days d k = Inl OverflowError"
proof (induction k arbitrary: d)
  case 0
  with toordinal_bounds [of d] show ?case by simp
next
  case (Suc k)
  show ?case
  proof (cases "prev_day d")
    case (Inl e)
    from prev_day_overflow [OF Suc.prems(1) Inl] Inl show ?thesis by simp
  next
    case (Inr d1)
    from prev_day_toordinal [OF Suc.prems(1) Inr] Suc.prems(2)
    have "valid_date d1" "toordinal d1 - int k < 1" by simp_all
    from Suc.IH [OF this] Inr show ?thesis by simp
  qed
qed

lemma date_add_toordinal:
  assumes "valid_date d" "date_add d k = Inr d'"
  shows "valid_date d' \<and> toordinal d' = toordinal d + k"
proof (cases "0 \<le> k")
  case True
  with assms(2) have "add_days d (nat k) = Inr d'" by (simp add: date_add_def)
  from add_days_toordinal [OF assms(1) this] True show ?thesis by simp
next
  case False
  with assms(2) have "sub_days d (nat (- k)) = Inr d'" by (simp add: date_add_def)
  from sub_days_toordinal [OF assms(1) this] False show ?thesis by simp
qed

lemma date_add_ok:
  assumes "valid_date d" "1 \<le> toordinal d + k" "toordinal d + k \<le> MAXORDINAL"
  shows "\<exists>d'. date_add d k = Inr d' \<and> valid_date d' \<and> toordinal d' = toordinal d + k"
proof -
  have "\<exists>d'. date_add d k = Inr d'"
  proof (cases "0 \<le> k")
    case True
    with assms(3) have "toordinal d + int (nat k) \<le> MAXORDINAL" by simp
    from add_days_ok [OF assms(1) this] True show ?thesis by (simp add: date_add_def)
  next
    case False
    with assms(2) have "1 \<le> toordinal d - int (nat (- k))" by simp
    from sub_days_ok [OF assms(1) this] False show ?thesis by (simp add: date_add_def)
  qed
  with date_add_toordinal [OF assms(1)] show ?thesis by blast
qed

lemma date_add_overflow:
  assumes "valid_date d" "toordinal d + k < 1 \<or> MAXORDINAL < toordinal d + k"
  shows "date_add d k = Inl OverflowError"
proof (cases "0 \<le> k")
  case True
  with assms(2) toordinal_bounds [OF assms(1)] have "MAXORDINAL < toordinal d + int (nat k)"
    by simp
  from add_days_overflow [OF assms(1) this] True show ?thesis by (simp add: date_add_def)
next
  case False
  with assms(2) toordinal_bounds [OF assms(1)] have "toordinal d - int (nat (- k)) < 1"
    by simp
  from sub_days_overflow [OF assms(1) this] False show ?thesis by (simp add: date_add_def)
qed


lemma weekday_range: "0 \<le> weekday d \<and> weekday d \<le> 6"
  by (simp add: weekday_def)

lemma weekly_range:
  assumes v: "valid_date a" and fit: "toordinal a - weekday a + 6 \<le> MAXORDINAL"
  shows "\<exists>s e. get_date_range ''weekly'' a = Inr (s, e) \<and> valid_date s \<and> valid_date e
           \<and> weekday s = 0 \<and> toordinal s = toordinal a - weekday a
           \<and> toordinal e = toordinal s + 6"
proof -
  have w: "weekday a \<le> toordinal a - 1"
    using toordinal_bounds [OF v] unfolding weekday_def by presburger
  from w fit weekday_range [of a]
  have "1 \<le> toordinal a + - weekday a" "toordinal a + - weekday a \<le> MAXORDINAL" by simp_all
  from date_add_ok [OF v this] obtain s where
    s: "date_add a (- weekday a) = Inr s" "valid_date s" "toordinal s = toordinal a - weekday a"
    by auto
  from s(3) toordinal_bounds [OF s(2)] fit
  have "1 \<le> toordinal s + 6" "toordinal s + 6 \<le> MAXORDINAL" by simp_all
  from date_add_ok [OF s(2) this] obtain e where
    e: "date_add s 6 = Inr e" "valid_date e" "toordinal e = toordinal s + 6"
    by auto
  have "weekday s = 0"
    unfolding weekday_def s(3) weekday_def by presburger
  with s e show ?thesis by (simp add: get_date_range_def)
qed

lemma weekly_overflow:
  assumes v: "valid_date a" and big: "MAXORDINAL < toordinal a - weekday a + 6"
  shows "get_date_range ''weekly'' a = Inl OverflowError"
proof -
  have w: "weekday a \<le> toordinal a - 1"
    using toordinal_bounds [OF v] unfolding weekday_def by presburger
  from w weekday_range [of a] toordinal_bounds [OF v]
  have "1 \<le> toordinal a + - weekday a" "toordinal a + - weekday a \<le> MAXORDINAL" by simp_all
  from date_add_ok [OF v this] obtain s where
    s: "date_add a (- weekday a) = Inr s" "valid_date s" "toordinal s = toordinal a - weekday a"
    by auto
  from big s(3) have "toordinal s + 6 < 1 \<or> MAXORDINAL < toordinal s + 6" by simp
  from date_add_overflow [OF s(2) this] s(1) show ?thesis by (simp add: get_date_range_def)
qed

lemmas calendar_defs = replace_day_def date_add_def next_day_def prev_day_def days_in_month_def
  DAYS_IN_MONTH_def MAXYEAR_def MINYEAR_def

lemma monthly_range:
  assumes v: "valid_date a" and nd: "\<not> (year a = 9999 \<and> month a = 12)"
  shows "get_date_range ''monthly'' a =
           Inr (a\<lparr>day := 1\<rparr>, a\<lparr>day := days_in_month (year a) (month a)\<rparr>)"
proof -
  from v have m: "1 \<le> month a" "month a \<le> 12" and y: "1 \<le> year a" "year a \<le> 9999"
    by (simp_all add: valid_date_def MAXYEAR_def MINYEAR_def)
  from month_cases [OF m] nd y show ?thesis
    by (elim disjE) (simp_all add: get_date_range_def calendar_defs eval_nat_numeral)
qed

lemma monthly_overflow:
  assumes "year a = 9999" "month a = 12"
  shows "get_date_range ''monthly'' a = Inl OverflowError"
  using assms by (simp add: get_date_range_def calendar_defs eval_nat_numeral)

section \<open>Period resolver: results\<close>

text \<open>
  C4 (as amended). For every date of the calendar: the daily range is the anchor
  itself; the weekly range, when the Sunday of the anchor's week is still a date
  (no later than 9999-12-31), starts on the Monday of the anchor's week,
  \<open>weekday anchor\<close> days before the anchor, and ends six days after its start, and
  otherwise the resolver raises \<^verbatim>\<open>OverflowError\<close>; the monthly range runs from the
  first to the last day of the anchor's month, whatever the month's length, except in
  December 9999, where stepping four days past the 28th leaves the calendar and the
  resolver raises \<^verbatim>\<open>OverflowError\<close>.
\<close>

theorem get_date_range_within_calendar:
  assumes "valid_date a"
  shows "get_date_range ''daily'' a = Inr (a, a)
    \<and> (if toordinal a - weekday a + 6 \<le> MAXORDINAL
       then \<exists>s e. get_date_range ''weekly'' a = Inr (s, e) \<and> valid_date s \<and> valid_date e
              \<and> weekday s = 0 \<and> toordinal s = toordinal a - weekday a
              \<and> toordinal e = toordinal s + 6
       else get_date_range ''weekly'' a = Inl OverflowError)
    \<and> (if year a = 9999 \<and> month a = 12
       then get_date_range ''monthly'' a = Inl OverflowError
       else get_date_range ''monthly'' a =
              Inr (a\<lparr>day := 1\<rparr>, a\<lparr>day := days_in_month (year a) (month a)\<rparr>))"
proof (intro conjI)
  show "get_date_range ''daily'' a = Inr (a, a)" by (simp add: get_date_range_def)
next
  show "if toordinal a - weekday a + 6 \<le> MAXORDINAL
       then \<exists>s e. get_date_range ''weekly'' a = Inr (s, e) \<and> valid_date s \<and> valid_date e
              \<and> weekday s = 0 \<and> toordinal s = toordinal a - weekday a
              \<and> toordinal e = toordinal s + 6
       else get_date_range ''weekly'' a = Inl OverflowError"
    using weekly_range [OF assms] weekly_overflow [OF assms] by (simp split: if_splits)
next
  show "if year a = 9999 \<and> month a = 12
       then get_date_range ''monthly'' a = Inl OverflowError
       else get_date_range ''monthly'' a =
              Inr (a\<lparr>day := 1\<rparr>, a\<lparr>day := days_in_month (year a) (month a)\<rparr>)"
    using monthly_range [OF assms] monthly_overflow [of a] by (simp split: if_splits)
qed

lemma valid_2024_02_15: "valid_date \<lparr>year = 2024, month = 2, day = 15\<rparr>"
  by code_simp

lemma weekly_2024_02_15: "get_date_range ''weekly'' \<lparr>year = 2024, month = 2, day = 15\<rparr>
  = Inr (\<lparr>year = 2024, month = 2, day = 12\<rparr>, \<lparr>year = 2024, month = 2, day = 18\<rparr>)"
  by code_simp

theorem get_date_range_within_calendar_witness:
  "valid_date \<lparr>year = 2024, month = 2, day = 15\<rparr>
   \<and> get_date_range ''daily'' \<lparr>year = 2024, month = 2, day = 15\<rparr>
       = Inr (\<lparr>year = 2024, month = 2, day = 15\<rparr>, \<lparr>year = 2024, month = 2, day = 15\<rparr>)
   \<and> get_date_range ''weekly'' \<lparr>year = 2024, month = 2, day = 15\<rparr>
       = Inr (\<lparr>year = 2024, month = 2, day = 12\<rparr>, \<lparr>year = 2024, month = 2, day = 18\<rparr>)
   \<and> weekday \<lparr>year = 2024, month = 2, day = 12\<rparr> = 0
   \<and> get_date_range ''monthly'' \<lparr>year = 2024, month = 2, day = 15\<rparr>
       = Inr (\<lparr>year = 2024, month = 2, day = 1\<rparr>, \<lparr>year = 2024, month = 2, day = 29\<rparr>)"
proof -
  have v: "valid_date \<lparr>year = 2024, month = 2, day = 15\<rparr>" by (rule valid_2024_02_15)
  have dim: "days_in_month 2024 2 = 29" by code_simp
  have fit: "toordinal \<lparr>year = 2024, month = 2, day = 15\<rparr>
      - weekday \<lparr>year = 2024, month = 2, day = 15\<rparr> + 6 \<le> MAXORDINAL"
    by code_simp
  show ?thesis
    using get_date_range_within_calendar [OF v] v fit
    by (auto simp: weekly_2024_02_15 dim)
qed

text \<open>
  The claim as stated, for every input date, fails on the last day of the calendar:
  both the weekly and the monthly range raise instead of returning.
\<close>

theorem get_date_range_end_of_calendar_counterexample:
  "valid_date \<lparr>year = 9999, month = 12, day = 31\<rparr>
   \<and> get_date_range ''weekly'' \<lparr>year = 9999, month = 12, day = 31\<rparr> = Inl OverflowError
   \<and> get_date_range ''monthly'' \<lparr>year = 9999, month = 12, day = 31\<rparr> = Inl OverflowError"
  by code_simp

section \<open>Floating-point numbers: evaluation\<close>

lemma float_exponent_eq:
  assumes "- 1022 \<le> k" "2 powi k \<le> \<bar>x\<bar>" "\<bar>x\<bar> < 2 powi (k + 1)"
  shows "float_exponent x = k"
proof -
  have pos: "0 < \<bar>x\<bar>" using assms(2) by (smt (verit) zero_less_power_int)
  have a: "(2::real) powr real_of_int k = 2 powi k"
    by (simp add: powr_real_of_int')
  have "(2::real) powr real_of_int (k + 1) = 2 powi (k + 1)"
    by (rule powr_real_of_int') simp_all
  then have b: "(2::real) powr (real_of_int k + 1) = 2 powi (k + 1)" by simp
  have "2 powr real_of_int k \<le> \<bar>x\<bar> \<and> \<bar>x\<bar> < 2 powr (real_of_int k + 1)"
    using assms(2,3) unfolding a b by simp
  with pos have "\<lfloor>log 2 \<bar>x\<bar>\<rfloor> = k"
    by (simp add: floor_log_eq_powr_iff)
  with assms(1) show ?thesis by (simp add: float_exponent_def)
qed

lemma fl_eq:
  assumes "- 1022 \<le> k" "2 powi k \<le> \<bar>x\<bar>" "\<bar>x\<bar> < 2 powi (k + 1)"
  shows "fl x = of_int (round_half_even (x / 2 powi (k - 52))) * 2 powi (k - 52)"
proof -
  have "x \<noteq> 0" using assms(2) by (smt (verit) zero_less_power_int abs_zero)
  then show ?thesis by (simp add: fl_def Let_def float_exponent_eq [OF assms])
qed

lemma fl_0: "fl 0 = 0"
  by (simp add: fl_def)

lemma fl_minus_1: "fl (- 1) = - 1"
  by (subst fl_eq [of 0]) (simp_all add: round_half_even_def)

lemma fl_minus_20: "fl (- 20) = - 20"
  by (subst fl_eq [of 4]) (simp_all add: round_half_even_def)

lemma fl_100: "fl 100 = 100"
  by (subst fl_eq [of 6]) (simp_all add: round_half_even_def)

lemma fl_110: "fl 110 = 110"
  by (subst fl_eq [of 6]) (simp_all add: round_half_even_def)

lemma fl_120: "fl 120 = 120"
  by (subst fl_eq [of 6]) (simp_all add: round_half_even_def)

lemma fl_220: "fl 220 = 220"
  by (subst fl_eq [of 7]) (simp_all add: round_half_even_def)

text \<open>\<^verbatim>\<open>100.0 / 60\<close> is the float \<^verbatim>\<open>0x1.aaaaaaaaaaaabp+0\<close>, printed 1.6666666666666667.\<close>

lemma fl_5_3: "fl (5 / 3) = 7505999378950827 / 4503599627370496"
  by (subst fl_eq [of 0]) (simp_all add: round_half_even_def)

section \<open>Trend and prediction engine: results\<close>

lemma last_attempted_at_missing:
  "getattr ConceptProgress ''last_attempted_at'' = Inl AttributeError"
  by (simp add: getattr_def ConceptProgress_def)

lemma created_at_missing: "getattr ConceptProgress ''created_at'' = Inl AttributeError"
  by (simp add: getattr_def ConceptProgress_def)

lemma calculate_learning_velocity_raises:
  "calculate_learning_velocity result = Inl AttributeError"
  by (simp add: calculate_learning_velocity_def last_attempted_at_missing getattr_def
      ConceptProgress_def)

lemma calculate_mastery_efficiency_raises:
  "calculate_mastery_efficiency result = Inl AttributeError"
  by (simp add: calculate_mastery_efficiency_def created_at_missing getattr_def
      ConceptProgress_def)

text \<open>
  C5. \<^verbatim>\<open>predict_completion_time\<close> starts with \<^verbatim>\<open>calculate_learning_velocity\<close>, whose
  query reads \<^verbatim>\<open>ConceptProgress.last_attempted_at\<close>. The class has no such attribute,
  so for every student, every state of the storage and every number of remaining
  concepts the call raises \<^verbatim>\<open>AttributeError\<close>: no velocity is computed, neither the
  no-estimate result with confidence "low" nor a result with a confidence tier is
  returned.
\<close>

theorem predict_completion_time_raises:
  "predict_completion_time today velocity_result consistency_result remaining_concepts
     = Inl AttributeError"
  by (simp add: predict_completion_time_def calculate_learning_velocity_raises)

text \<open>
  C6. \<^verbatim>\<open>_calculate_efficiency_score\<close> is documented as a score from 0 to 100. At 0
  attempts and 0 hours, the defaults that its caller substitutes for NULL averages, the
  attempt curve is \<open>100 - (0 - 1) * 20 = 120\<close> and the score is 110, above the
  documented range. The caller itself, \<^verbatim>\<open>calculate_mastery_efficiency\<close>, raises
  \<^verbatim>\<open>AttributeError\<close> on \<^verbatim>\<open>ConceptProgress.created_at\<close> before it reaches the score.
\<close>

theorem efficiency_score_defaults_above_100:
  "calculate_efficiency_score 0 0 = 110 \<and> \<not> calculate_efficiency_score 0 0 \<le> 100"
  by (simp add: calculate_efficiency_score_def fl_0 fl_minus_1 fl_minus_20 fl_120 fl_100
      fl_220 fl_110)

text \<open>
  C7. In the slow bucket \<^verbatim>\<open>_get_completion_recommendation\<close> suggests
  \<open>estimated_days / 60\<close> as the pace that completes within two months. An estimate of
  100 days at a velocity of 2 concepts per day stands for 200 remaining concepts; the
  suggested pace is \<open>100 / 60\<close>, printed as 1.7 concepts per day, below the current
  pace, and 60 days at that pace cover 102 concepts, not the 200 that remain.
\<close>

theorem slow_bucket_target_velocity_insufficient:
  "get_completion_recommendation 100 2 = IncreasePace (17 / 10)
   \<and> (17 / 10 :: real) * 60 < 100 * 2"
  by (simp add: get_completion_recommendation_def fl_5_3 format_1f_def round_half_even_def)

section \<open>Points engine: results\<close>

lemma floor_sqrt_eq:
  assumes "0 \<le> k" "(real_of_int k)\<^sup>2 \<le> x" "x < (real_of_int k + 1)\<^sup>2"
  shows "\<lfloor>sqrt x\<rfloor> = k"
proof (rule floor_unique)
  show "real_of_int k \<le> sqrt x" using assms(2) by (rule real_le_rsqrt)
  show "sqrt x < real_of_int k + 1"
    using assms(1,3) by (intro real_less_lsqrt) simp_all
qed

lemma floor_sqrt_mono: "x \<le> y \<Longrightarrow> \<lfloor>sqrt x\<rfloor> \<le> \<lfloor>sqrt y\<rfloor>"
  by (intro floor_mono real_sqrt_le_mono)

lemma check_level_up_invariant:
  assumes "0 \<le> total_points q"
    and "current_level q \<le> \<lfloor>sqrt (real_of_int (total_points q) / 100)\<rfloor> + 1"
  shows "\<exists>level_up q'. check_level_up q = Inr (level_up, q') \<and> level_invariant q'
           \<and> total_points q' = total_points q \<and> lifetime_points q' = lifetime_points q"
  using assms by (auto simp: check_level_up_def level_invariant_def Let_def)

lemma rollback_put_points [simp]: "rollback (put_points s p db) = rollback db"
  by (simp add: rollback_def put_points_def)

lemma rollback_add_history [simp]: "rollback (add_history h db) = rollback db"
  by (simp add: rollback_def add_history_def)

lemma award_points_try_rollback:
  "award_points_try f db student_id points reason concept_id = (Inl e, db') \<Longrightarrow>
     rollback db' = rollback db"
  by (auto simp: award_points_try_def get_or_create_points_def Let_def commit_def
      split: option.splits sum.splits prod.splits)


lemma award_points_failure:
  assumes "award_points f db student_id points reason concept_id = (Inl e, db')"
  shows "db' = rollback db"
proof -
  from assms obtain db1 where
    t: "award_points_try f db student_id points reason concept_id = (Inl e, db1)"
    and d: "db' = rollback db1"
    by (auto simp: award_points_def split: prod.splits sum.splits)
  from award_points_try_rollback [OF t] d show ?thesis by simp
qed

text \<open>
  C8. When a persistence step of \<^verbatim>\<open>award_points\<close> fails (the select, the flush of a
  newly created row, or the commit), the call raises that same exception and leaves the
  session rolled back: the database holds what it held before the call, and the
  session's view is again the database's state, so neither a changed points row nor a
  history entry is observable. The same holds for every exception the call raises.
\<close>

theorem award_points_failure_rolls_back:
  "(select_fault f = Some e \<longrightarrow>
      award_points f db student_id points reason concept_id = (Inl e, rollback db))
   \<and> (select_fault f = None \<and> points_tbl (pending db) student_id = None
        \<and> flush_fault f = Some e \<longrightarrow>
      award_points f db student_id points reason concept_id = (Inl e, rollback db))
   \<and> (select_fault f = None
        \<and> (case points_tbl (pending db) student_id of
              None \<Rightarrow> flush_fault f = None \<and> 0 \<le> points
            | Some p \<Rightarrow> 0 \<le> total_points p + points)
        \<and> commit_fault f = Some e \<longrightarrow>
      award_points f db student_id points reason concept_id = (Inl e, rollback db))
   \<and> (\<forall>x db'. award_points f db student_id points reason concept_id = (Inl x, db') \<longrightarrow>
         committed db' = committed db \<and> pending db' = committed db
         \<and> points_tbl (pending db') student_id = points_tbl (committed db) student_id
         \<and> point_history_tbl (pending db') = point_history_tbl (committed db))"
proof (intro conjI impI allI)
  assume "select_fault f = Some e"
  then show "award_points f db student_id points reason concept_id = (Inl e, rollback db)"
    by (simp add: award_points_def award_points_try_def get_or_create_points_def)
next
  assume "select_fault f = None \<and> points_tbl (pending db) student_id = None
        \<and> flush_fault f = Some e"
  then show "award_points f db student_id points reason concept_id = (Inl e, rollback db)"
    by (simp add: award_points_def award_points_try_def get_or_create_points_def Let_def)
next
  assume a: "select_fault f = None
        \<and> (case points_tbl (pending db) student_id of
              None \<Rightarrow> flush_fault f = None \<and> 0 \<le> points
            | Some p \<Rightarrow> 0 \<le> total_points p + points)
        \<and> commit_fault f = Some e"
  then show "award_points f db student_id points reason concept_id = (Inl e, rollback db)"
    by (auto simp: award_points_def award_points_try_def get_or_create_points_def Let_def
        check_level_up_def commit_def default_Points_def split: option.splits)
next
  fix x db'
  assume "award_points f db student_id points reason concept_id = (Inl x, db')"
  then have "db' = rollback db" by (rule award_points_failure)
  then show "committed db' = committed db" "pending db' = committed db"
    "points_tbl (pending db') student_id = points_tbl (committed db) student_id"
    "point_history_tbl (pending db') = point_history_tbl (committed db)"
    by (simp_all add: rollback_def)
qed


lemma award_points_success:
  assumes nf: "select_fault f = None" "flush_fault f = None" "commit_fault f = None"
    and nn: "0 \<le> points"
    and inv: "case points_tbl (pending db) student_id of
                None \<Rightarrow> True | Some p \<Rightarrow> level_invariant p"
  shows "\<exists>result db' p'. award_points f db student_id points reason concept_id = (Inr result, db')
           \<and> points_tbl (committed db') student_id = Some p' \<and> level_invariant p'
           \<and> total_points p' =
                (case points_tbl (pending db) student_id of
                   None \<Rightarrow> 0 | Some p \<Rightarrow> total_points p) + points
           \<and> result_total_points result = total_points p'
           \<and> result_current_level result = current_level p'"
proof -
  define p where "p = (case points_tbl (pending db) student_id of
                         None \<Rightarrow> default_Points | Some p \<Rightarrow> p)"
  define db1 where "db1 = (case points_tbl (pending db) student_id of
                         None \<Rightarrow> put_points student_id default_Points db | Some p \<Rightarrow> db)"
  have g: "get_or_create_points f db student_id = (Inr p, db1)"
    using nf by (simp add: get_or_create_points_def p_def db1_def Let_def split: option.splits)
  have "level_invariant default_Points"
    by (simp add: level_invariant_def default_Points_def)
  with inv have pinv: "level_invariant p" by (simp add: p_def split: option.splits)
  define q where "q = p\<lparr>total_points := total_points p + points,
                         lifetime_points := lifetime_points p + points\<rparr>"
  from pinv nn have q0: "0 \<le> total_points q" by (simp add: q_def level_invariant_def)
  have "real_of_int (total_points p) / 100 \<le> real_of_int (total_points q) / 100"
    using nn by (simp add: q_def)
  from floor_sqrt_mono [OF this] pinv
  have ql: "current_level q \<le> \<lfloor>sqrt (real_of_int (total_points q) / 100)\<rfloor> + 1"
    by (simp add: q_def level_invariant_def)
  from check_level_up_invariant [OF q0 ql] obtain level_up q' where
    c: "check_level_up q = Inr (level_up, q')" and q': "level_invariant q'"
      "total_points q' = total_points q"
    by blast
  have tot: "total_points q = (case points_tbl (pending db) student_id of
                   None \<Rightarrow> 0 | Some p \<Rightarrow> total_points p) + points"
    by (simp add: q_def p_def default_Points_def split: option.splits)
  show ?thesis
    using g c q' tot nf(3)
    by (simp add: award_points_def award_points_try_def Let_def q_def [symmetric] commit_def
        put_points_def add_history_def)
qed

lemma check_level_up_0:
  "check_level_up (default_Points\<lparr>total_points := 0\<rparr>) =
     Inr (False, \<lparr>total_points = 0, current_level = 1, points_to_next_level = 100,
                  lifetime_points = 0\<rparr>)"
  by (simp add: check_level_up_def default_Points_def)

lemma check_level_up_99:
  "check_level_up (default_Points\<lparr>total_points := 99\<rparr>) =
     Inr (False, \<lparr>total_points = 99, current_level = 1, points_to_next_level = 1,
                  lifetime_points = 0\<rparr>)"
proof -
  have "\<lfloor>sqrt (99 / 100)\<rfloor> = 0" by (rule floor_sqrt_eq) simp_all
  then show ?thesis by (simp add: check_level_up_def default_Points_def)
qed

lemma check_level_up_100:
  "check_level_up (default_Points\<lparr>total_points := 100\<rparr>) =
     Inr (True, \<lparr>total_points = 100, current_level = 2, points_to_next_level = 300,
                 lifetime_points = 0\<rparr>)"
  by (simp add: check_level_up_def default_Points_def)

lemma check_level_up_900:
  "check_level_up (default_Points\<lparr>total_points := 900\<rparr>) =
     Inr (True, \<lparr>total_points = 900, current_level = 4, points_to_next_level = 700,
                 lifetime_points = 0\<rparr>)"
proof -
  have "\<lfloor>sqrt 9\<rfloor> = 3" by (rule floor_sqrt_eq) simp_all
  then show ?thesis by (simp add: check_level_up_def default_Points_def)
qed


text \<open>
  C1. An award of a non-negative number of points, with no storage failure, to a
  student whose points row satisfies the level invariant (or who has no row yet)
  succeeds and stores a row that satisfies the invariant again:
  \<open>current_level = floor (sqrt (total_points / 100)) + 1\<close> and
  \<open>points_to_next_level = current_level\<^sup>2 * 100 - total_points\<close>, whether or not the
  level changed. A total of 0 gives level 1, 99 gives level 1, 100 gives level 2 and
  900 gives level 4.
\<close>

theorem award_points_keeps_level_invariant:
  assumes "f = no_faults" and "0 \<le> points"
    and "case points_tbl (pending db) student_id of
           None \<Rightarrow> True | Some p \<Rightarrow> level_invariant p"
  shows "(\<exists>result db' p'.
            award_points f db student_id points reason concept_id = (Inr result, db')
            \<and> points_tbl (committed db') student_id = Some p' \<and> level_invariant p'
            \<and> total_points p' =
                 (case points_tbl (pending db) student_id of
                    None \<Rightarrow> 0 | Some p \<Rightarrow> total_points p) + points
            \<and> result_total_points result = total_points p'
            \<and> result_current_level result = current_level p')
     \<and> check_level_up (default_Points\<lparr>total_points := 0\<rparr>) =
          Inr (False, \<lparr>total_points = 0, current_level = 1, points_to_next_level = 100,
                       lifetime_points = 0\<rparr>)
     \<and> check_level_up (default_Points\<lparr>total_points := 99\<rparr>) =
          Inr (False, \<lparr>total_points = 99, current_level = 1, points_to_next_level = 1,
                       lifetime_points = 0\<rparr>)
     \<and> check_level_up (default_Points\<lparr>total_points := 100\<rparr>) =
          Inr (True, \<lparr>total_points = 100, current_level = 2, points_to_next_level = 300,
                      lifetime_points = 0\<rparr>)
     \<and> check_level_up (default_Points\<lparr>total_points := 900\<rparr>) =
          Inr (True, \<lparr>total_points = 900, current_level = 4, points_to_next_level = 700,
                      lifetime_points = 0\<rparr>)"
proof -
  from assms(1) have nf: "select_fault f = None" "flush_fault f = None" "commit_fault f = None"
    by (simp_all add: no_faults_def)
  show ?thesis
    by (intro conjI award_points_success [OF nf assms(2,3)] check_level_up_0 check_level_up_99
        check_level_up_100 check_level_up_900)
qed

lemma level_invariant_50:
  "level_invariant \<lparr>total_points = 50, current_level = 1, points_to_next_level = 50,
     lifetime_points = 50\<rparr>"
proof -
  have "\<lfloor>sqrt (50 / 100)\<rfloor> = 0" by (rule floor_sqrt_eq) simp_all
  then show ?thesis by (simp add: level_invariant_def)
qed

theorem award_points_keeps_level_invariant_witness:
  "level_invariant \<lparr>total_points = 50, current_level = 1, points_to_next_level = 50,
     lifetime_points = 50\<rparr>
   \<and> (\<exists>result db' p'.
        award_points no_faults
          (session_of (empty_tables\<lparr>points_tbl := [''alice'' \<mapsto>
             \<lparr>total_points = 50, current_level = 1, points_to_next_level = 50,
              lifetime_points = 50\<rparr>]\<rparr>))
          ''alice'' 100 ''concept_mastered'' None = (Inr result, db')
        \<and> points_tbl (committed db') ''alice'' = Some p' \<and> level_invariant p'
        \<and> total_points p' = 150 \<and> result_total_points result = 150)"
proof -
  let ?row = "\<lparr>total_points = 50, current_level = 1, points_to_next_level = 50,
              lifetime_points = 50\<rparr>"
  let ?db = "session_of (empty_tables\<lparr>points_tbl := [''alice'' \<mapsto> ?row]\<rparr>)"
  have row: "points_tbl (pending ?db) ''alice'' = Some ?row"
    by (simp add: session_of_def)
  have inv: "case points_tbl (pending ?db) ''alice'' of
               None \<Rightarrow> True | Some p \<Rightarrow> level_invariant p"
    unfolding row using level_invariant_50 by simp
  have nn: "(0::int) \<le> 100" by simp
  from award_points_keeps_level_invariant [OF refl nn inv, of "''concept_mastered''" None]
  obtain result db' p' where
    r: "award_points no_faults ?db ''alice'' 100 ''concept_mastered'' None = (Inr result, db')"
      "points_tbl (committed db') ''alice'' = Some p'" "level_invariant p'"
      "total_points p' = (case points_tbl (pending ?db) ''alice'' of
                            None \<Rightarrow> 0 | Some p \<Rightarrow> total_points p) + 100"
      "result_total_points result = total_points p'"
    by blast
  from r(4) have t: "total_points p' = 150" unfolding row by simp
  from r(1,2,3) t r(5) level_invariant_50 show ?thesis by auto
qed

theorem award_points_failure_rolls_back_witness:
  "award_points (no_faults\<lparr>select_fault := Some (SQLAlchemyError ''connection lost'')\<rparr>)
       (session_of empty_tables) ''alice'' 100 ''concept_mastered'' None
     = (Inl (SQLAlchemyError ''connection lost''), rollback (session_of empty_tables))
   \<and> award_points (no_faults\<lparr>flush_fault := Some (SQLAlchemyError ''connection lost'')\<rparr>)
       (session_of empty_tables) ''alice'' 100 ''concept_mastered'' None
     = (Inl (SQLAlchemyError ''connection lost''), rollback (session_of empty_tables))
   \<and> award_points (no_faults\<lparr>commit_fault := Some (SQLAlchemyError ''connection lost'')\<rparr>)
       (session_of empty_tables) ''alice'' 100 ''concept_mastered'' None
     = (Inl (SQLAlchemyError ''connection lost''), rollback (session_of empty_tables))
   \<and> points_tbl (pending (rollback (session_of empty_tables))) ''alice'' = None
   \<and> point_history_tbl (pending (rollback (session_of empty_tables))) = []"
proof -
  let ?e = "SQLAlchemyError ''connection lost''"
  let ?db = "session_of empty_tables"
  have none: "points_tbl (pending ?db) ''alice'' = None"
    by (simp add: session_of_def empty_tables_def)
  have a: "select_fault (no_faults\<lparr>select_fault := Some ?e\<rparr>) = Some ?e" by simp
  have b: "select_fault (no_faults\<lparr>flush_fault := Some ?e\<rparr>) = None
      \<and> points_tbl (pending ?db) ''alice'' = None
      \<and> flush_fault (no_faults\<lparr>flush_fault := Some ?e\<rparr>) = Some ?e"
    using none by (simp add: no_faults_def)
  have c: "select_fault (no_faults\<lparr>commit_fault := Some ?e\<rparr>) = None
      \<and> (case points_tbl (pending ?db) ''alice'' of
            None \<Rightarrow> flush_fault (no_faults\<lparr>commit_fault := Some ?e\<rparr>) = None \<and> (0::int) \<le> 100
          | Some p \<Rightarrow> 0 \<le> total_points p + 100)
      \<and> commit_fault (no_faults\<lparr>commit_fault := Some ?e\<rparr>) = Some ?e"
    unfolding none by (simp add: no_faults_def)
  note th = award_points_failure_rolls_back
  from th [of "no_faults\<lparr>select_fault := Some ?e\<rparr>" ?e ?db "''alice''" 100
           "''concept_mastered''" None] a
  have 1: "award_points (no_faults\<lparr>select_fault := Some ?e\<rparr>) ?db ''alice'' 100
             ''concept_mastered'' None = (Inl ?e, rollback ?db)" by blast
  from th [of "no_faults\<lparr>flush_fault := Some ?e\<rparr>" ?e ?db "''alice''" 100
           "''concept_mastered''" None] b
  have 2: "award_points (no_faults\<lparr>flush_fault := Some ?e\<rparr>) ?db ''alice'' 100
             ''concept_mastered'' None = (Inl ?e, rollback ?db)" by blast
  from th [of "no_faults\<lparr>commit_fault := Some ?e\<rparr>" ?e ?db "''alice''" 100
           "''concept_mastered''" None] c
  have 3: "award_points (no_faults\<lparr>commit_fault := Some ?e\<rparr>) ?db ''alice'' 100
             ''concept_mastered'' None = (Inl ?e, rollback ?db)" by blast
  have 4: "points_tbl (pending (rollback ?db)) ''alice'' = None"
    "point_history_tbl (pending (rollback ?db)) = []"
    by (simp_all add: rollback_def session_of_def empty_tables_def)
  from 1 2 3 4 show ?thesis by simp
qed

section \<open>Badge engine: results\<close>

lemma find_eq_None_iff: "List.find (\<lambda>ub. ub = k) xs = None \<longleftrightarrow> k \<notin> set xs"
  by (auto simp: find_None_iff)

lemma award_badge_existing:
  "(student_id, badge_id badge) \<in> set (user_badges_tbl (pending db)) \<Longrightarrow>
     award_badge commit_fault_of db student_id badge = (None, db, False)"
  by (cases "List.find (\<lambda>ub. ub = (student_id, badge_id badge)) (user_badges_tbl (pending db))")
     (auto simp: award_badge_def find_eq_None_iff)

lemma award_badge_cases:
  assumes "award_badge cf db s b = (r, db', x)"
  shows "(r = None \<and> db' = db \<and> \<not> x \<and> (s, badge_id b) \<in> set (user_badges_tbl (pending db)))
    \<or> (r = Some (s, badge_id b) \<and> \<not> x
         \<and> (s, badge_id b) \<notin> set (user_badges_tbl (pending db))
         \<and> cf (badge_id b) = None
         \<and> db' = \<lparr> committed = pending (add_user_badge (s, badge_id b) db),
                   pending = pending (add_user_badge (s, badge_id b) db) \<rparr>)
    \<or> (r = None \<and> x \<and> (s, badge_id b) \<notin> set (user_badges_tbl (pending db))
         \<and> cf (badge_id b) \<noteq> None
         \<and> db' = \<lparr> committed = committed db, pending = committed db \<rparr>)"
proof (cases "List.find (\<lambda>ub. ub = (s, badge_id b)) (user_badges_tbl (pending db))")
  case (Some a)
  then have "(s, badge_id b) \<in> set (user_badges_tbl (pending db))"
    using find_eq_None_iff [of "(s, badge_id b)" "user_badges_tbl (pending db)"] by simp
  with assms Some show ?thesis by (simp add: award_badge_def)
next
  case None
  then have n: "(s, badge_id b) \<notin> set (user_badges_tbl (pending db))"
    by (simp add: find_eq_None_iff)
  show ?thesis
  proof (cases "cf (badge_id b)")
    case None' : None
    with None assms n show ?thesis
      by (auto simp: award_badge_def Let_def commit_def add_user_badge_def)
  next
    case (Some e)
    with None assms n show ?thesis
      by (auto simp: award_badge_def Let_def commit_def add_user_badge_def rollback_def)
  qed
qed

lemma award_badge_held:
  assumes "held s i db" "award_badge cf db s b = (r, db', x)"
  shows "held s i db' \<and> (badge_id b = i \<longrightarrow> r = None)"
  using award_badge_cases [OF assms(2)] assms(1)
  by (auto simp: held_def add_user_badge_def)

lemma award_badge_new_held:
  assumes "award_badge cf db s b = (Some ub, db', x)"
  shows "held s (badge_id b) db'"
  using award_badge_cases [OF assms]
  by (auto simp: held_def add_user_badge_def)

text \<open>One step of the loop, for a badge whose criteria hold and whose rows are not expired.\<close>

lemma award_each_step:
  assumes "check_badge_criteria mt b et ed" "award_badge cf db s b = (r, db1, x)"
  shows "award_each cf mt s et ed (b # badges) acc False db =
           award_each cf mt s et ed badges
             (case r of None \<Rightarrow> acc | Some ub \<Rightarrow> acc @ [badge_info_of b]) x db1"
  using assms by (cases r) simp_all

lemma award_each_skip:
  assumes "\<not> check_badge_criteria mt b et ed"
  shows "award_each cf mt s et ed (b # badges) acc False db =
           award_each cf mt s et ed badges acc False db"
  using assms by simp

lemma award_each_expired:
  "award_each cf mt s et ed badges acc True db = (r, db') \<Longrightarrow>
     db' = db \<and> (\<forall>earned. r = Inr earned \<longrightarrow> earned = acc)"
  by (cases badges) auto

lemma award_each_held:
  "held s i db \<Longrightarrow> award_each cf mt s et ed badges acc x db = (r, db') \<Longrightarrow>
     held s i db' \<and> (\<forall>earned. r = Inr earned \<longrightarrow>
                        (\<forall>y\<in>set earned. info_badge_id y = i \<longrightarrow> y \<in> set acc))"
proof (induction badges arbitrary: acc x db)
  case Nil
  then show ?case by auto
next
  case (Cons b badges)
  show ?case
  proof (cases x)
    case True
    with award_each_expired [of cf mt s et ed "b # badges" acc db r db'] Cons.prems
    show ?thesis by auto
  next
    case False
    note nx = this
    show ?thesis
    proof (cases "check_badge_criteria mt b et ed")
      case False
      with nx Cons.prems(2) have "award_each cf mt s et ed badges acc False db = (r, db')"
        by simp
      from Cons.IH [OF Cons.prems(1) this] show ?thesis .
    next
      case True
      obtain u db1 x1 where a: "award_badge cf db s b = (u, db1, x1)"
        by (cases "award_badge cf db s b") auto
      from award_badge_held [OF Cons.prems(1) a]
      have h1: "held s i db1" and ni: "badge_id b = i \<longrightarrow> u = None" by simp_all
      from award_each_step [OF True a, of badges acc] nx Cons.prems(2)
      have rest: "award_each cf mt s et ed badges
                    (case u of None \<Rightarrow> acc | Some ub \<Rightarrow> acc @ [badge_info_of b]) x1 db1
                  = (r, db')"
        by simp
      show ?thesis
      proof (cases u)
        case None
        with Cons.IH [OF h1 rest] show ?thesis by simp
      next
        case (Some ub)
        with ni have ne: "info_badge_id (badge_info_of b) \<noteq> i"
          by (auto simp: badge_info_of_def)
        from Cons.IH [OF h1 rest] Some
        have h: "held s i db'"
          and ih: "\<forall>earned. r = Inr earned \<longrightarrow>
                    (\<forall>y\<in>set earned. info_badge_id y = i \<longrightarrow>
                       y \<in> set (acc @ [badge_info_of b]))"
          by simp_all
        have "\<forall>earned. r = Inr earned \<longrightarrow>
                (\<forall>y\<in>set earned. info_badge_id y = i \<longrightarrow> y \<in> set acc)"
        proof (intro allI impI ballI)
          fix earned y
          assume "r = Inr earned" "y \<in> set earned" "info_badge_id y = i"
          with ih have "y \<in> set (acc @ [badge_info_of b])" by blast
          with ne \<open>info_badge_id y = i\<close> show "y \<in> set acc" by auto
        qed
        with h show ?thesis by simp
      qed
    qed
  qed
qed

lemma award_each_earned_held:
  "award_each cf mt s et ed badges acc x db = (Inr earned, db') \<Longrightarrow>
     \<forall>y\<in>set earned. y \<in> set acc \<or> held s (info_badge_id y) db'"
proof (induction badges arbitrary: acc x db)
  case Nil
  then show ?case by simp
next
  case (Cons b badges)
  show ?case
  proof (cases x)
    case True
    with Cons.prems show ?thesis by simp
  next
    case False
    note nx = this
    show ?thesis
    proof (cases "check_badge_criteria mt b et ed")
      case False
      with nx Cons.prems have "award_each cf mt s et ed badges acc False db = (Inr earned, db')"
        by simp
      from Cons.IH [OF this] show ?thesis .
    next
      case True
      obtain u db1 x1 where a: "award_badge cf db s b = (u, db1, x1)"
        by (cases "award_badge cf db s b") auto
      from award_each_step [OF True a, of badges acc] nx Cons.prems
      have rest: "award_each cf mt s et ed badges
                    (case u of None \<Rightarrow> acc | Some ub \<Rightarrow> acc @ [badge_info_of b]) x1 db1
                  = (Inr earned, db')"
        by simp
      show ?thesis
      proof (cases u)
        case None
        with Cons.IH [OF rest] show ?thesis by simp
      next
        case (Some ub)
        with a have "held s (badge_id b) db1" by (auto intro: award_badge_new_held)
        from award_each_held [OF this rest] have hb: "held s (badge_id b) db'" by simp
        from Cons.IH [OF rest] Some hb show ?thesis by (auto simp: badge_info_of_def)
      qed
    qed
  qed
qed

lemma award_each_extends:
  "award_each cf mt s et ed badges acc x db = (Inr earned, db') \<Longrightarrow> set acc \<subseteq> set earned"
proof (induction badges arbitrary: acc x db)
  case Nil
  then show ?case by simp
next
  case (Cons b badges)
  show ?case
  proof (cases x)
    case True
    with Cons.prems show ?thesis by simp
  next
    case False
    note nx = this
    show ?thesis
    proof (cases "check_badge_criteria mt b et ed")
      case False
      with nx Cons.prems Cons.IH [of acc False db] show ?thesis by simp
    next
      case True
      obtain u db1 x1 where a: "award_badge cf db s b = (u, db1, x1)"
        by (cases "award_badge cf db s b") auto
      from award_each_step [OF True a, of badges acc] nx Cons.prems
      have rest: "award_each cf mt s et ed badges
                    (case u of None \<Rightarrow> acc | Some ub \<Rightarrow> acc @ [badge_info_of b]) x1 db1
                  = (Inr earned, db')"
        by simp
      from Cons.IH [OF rest] show ?thesis by (cases u) auto
    qed
  qed
qed

text \<open>With no failing commit the loop never rolls back, and it returns.\<close>

lemma award_badge_no_fault:
  assumes "award_badge (\<lambda>_. None) db s b = (r, db', x)"
  shows "\<not> x \<and> (r = None \<longrightarrow> db' = db)
         \<and> user_badges_tbl (pending db') =
             user_badges_tbl (pending db) @ (case r of None \<Rightarrow> [] | Some ub \<Rightarrow> [(s, badge_id b)])
         \<and> (r = None \<longleftrightarrow> (s, badge_id b) \<in> set (user_badges_tbl (pending db)))"
  using award_badge_cases [OF assms] by (auto simp: add_user_badge_def)

lemma award_each_no_fault_returns:
  "\<exists>earned db'. award_each (\<lambda>_. None) mt s et ed badges acc False db = (Inr earned, db')"
proof (induction badges arbitrary: acc db)
  case Nil
  show ?case by simp
next
  case (Cons b badges)
  show ?case
  proof (cases "check_badge_criteria mt b et ed")
    case False
    with Cons.IH [of acc db] show ?thesis by simp
  next
    case True
    obtain u db1 x1 where a: "award_badge (\<lambda>_. None) db s b = (u, db1, x1)"
      by (cases "award_badge (\<lambda>_. None) db s b") auto
    from award_badge_no_fault [OF a] have "x1 = False" by simp
    with award_each_step [OF True a, of badges acc]
      Cons.IH [of "case u of None \<Rightarrow> acc | Some ub \<Rightarrow> acc @ [badge_info_of b]" db1]
    show ?thesis by simp
  qed
qed

lemma award_each_awards:
  assumes "b \<in> set badges" "check_badge_criteria mt b et ed"
    and "badge_id b \<in> info_badge_id ` set acc
         \<or> (s, badge_id b) \<notin> set (user_badges_tbl (pending db))"
    and "award_each (\<lambda>_. None) mt s et ed badges acc False db = (Inr earned, db')"
  shows "badge_id b \<in> info_badge_id ` set earned"
  using assms
proof (induction badges arbitrary: acc db)
  case Nil
  then show ?case by simp
next
  case (Cons a badges)
  show ?case
  proof (cases "badge_id b \<in> info_badge_id ` set acc")
    case True
    with award_each_extends [OF Cons.prems(4)] show ?thesis by auto
  next
    case False
    with Cons.prems(3) have fresh: "(s, badge_id b) \<notin> set (user_badges_tbl (pending db))"
      by simp
    show ?thesis
    proof (cases "check_badge_criteria mt a et ed")
      case False
      with Cons.prems(1,2) have "b \<in> set badges" by auto
      from Cons.IH [OF this Cons.prems(2,3)] False Cons.prems(4) show ?thesis by simp
    next
      case True
      obtain u db1 x1 where aw: "award_badge (\<lambda>_. None) db s a = (u, db1, x1)"
        by (cases "award_badge (\<lambda>_. None) db s a") auto
      from award_badge_no_fault [OF aw]
      have x1: "x1 = False"
        and tbl: "user_badges_tbl (pending db1) =
             user_badges_tbl (pending db) @ (case u of None \<Rightarrow> [] | Some ub \<Rightarrow> [(s, badge_id a)])"
        and un: "u = None \<longleftrightarrow> (s, badge_id a) \<in> set (user_badges_tbl (pending db))"
        by simp_all
      from award_each_step [OF True aw, of badges acc] x1 Cons.prems(4)
      have rest: "award_each (\<lambda>_. None) mt s et ed badges
                    (case u of None \<Rightarrow> acc | Some ub \<Rightarrow> acc @ [badge_info_of a]) False db1
                  = (Inr earned, db')"
        by simp
      show ?thesis
      proof (cases "badge_id a = badge_id b")
        case True
        with un fresh obtain ub where u: "u = Some ub" by (cases u) auto
        with True have "badge_id b \<in> info_badge_id `
            set (case u of None \<Rightarrow> acc | Some ub \<Rightarrow> acc @ [badge_info_of a])"
          by (simp add: badge_info_of_def)
        with award_each_extends [OF rest] show ?thesis by auto
      next
        case False
        with Cons.prems(1) have bm: "b \<in> set badges" by auto
        from False fresh tbl
        have "badge_id b \<in> info_badge_id `
                set (case u of None \<Rightarrow> acc | Some ub \<Rightarrow> acc @ [badge_info_of a])
              \<or> (s, badge_id b) \<notin> set (user_badges_tbl (pending db1))"
          by (cases u) auto
        from Cons.IH [OF bm Cons.prems(2) this rest] show ?thesis .
      qed
    qed
  qed
qed

lemma check_and_award_badges_returns:
  "\<exists>earned db'. check_and_award_badges None (\<lambda>_. None) mt db s et ed = (Inr earned, db')
     \<and> award_each (\<lambda>_. None) mt s et ed (filter is_active (badges_tbl (pending db))) [] False db
         = (Inr earned, db')"
  using award_each_no_fault_returns
          [of mt s et ed "filter is_active (badges_tbl (pending db))" "[]" db]
  by (auto simp: check_and_award_badges_def)

lemma check_and_award_badges_Inr:
  assumes "check_and_award_badges sf cf mt db s et ed = (Inr earned, db')"
  shows "award_each cf mt s et ed (filter is_active (badges_tbl (pending db))) [] False db
           = (Inr earned, db')"
  using assms by (auto simp: check_and_award_badges_def split: option.splits)

lemma second_call_omits:
  assumes 1: "check_and_award_badges sf1 cf1 mt1 db s et ed = (Inr earned1, db1)"
    and 2: "check_and_award_badges sf2 cf2 mt2 db1 s et ed = (Inr earned2, db2)"
    and x: "x \<in> set earned1"
  shows "info_badge_id x \<notin> info_badge_id ` set earned2"
proof -
  from award_each_earned_held [OF check_and_award_badges_Inr [OF 1]] x
  have "held s (info_badge_id x) db1" by auto
  from award_each_held [OF this check_and_award_badges_Inr [OF 2]]
  show ?thesis by auto
qed

text \<open>
  C2. When the session already holds an award for (student, badge), \<^verbatim>\<open>_award_badge\<close>
  returns nothing, adds nothing and leaves the session as it was. A badge that one call
  of \<^verbatim>\<open>check_and_award_badges\<close> reports is never reported by a following call for the
  same student, whatever commits fail in either call. And when no commit fails, an
  active badge whose criteria the event meets and that the student does not hold yet
  is in the result of the first call and not in the result of the second, which returns
  normally, without an error.
\<close>

theorem badge_awarded_at_most_once:
  "((student_id, badge_id badge) \<in> set (user_badges_tbl (pending db)) \<longrightarrow>
       award_badge commit_fault_of db student_id badge = (None, db, False))
   \<and> (check_and_award_badges sf1 cf1 mt1 db student_id event_type event_data = (Inr earned1, db1)
       \<and> check_and_award_badges sf2 cf2 mt2 db1 student_id event_type event_data
           = (Inr earned2, db2) \<longrightarrow>
       (\<forall>x\<in>set earned1. info_badge_id x \<notin> info_badge_id ` set earned2))
   \<and> (badge \<in> set (badges_tbl (pending db)) \<and> is_active badge
       \<and> check_badge_criteria mt1 badge event_type event_data
       \<and> (student_id, badge_id badge) \<notin> set (user_badges_tbl (pending db)) \<longrightarrow>
       (\<exists>first db' second db''.
          check_and_award_badges None (\<lambda>_. None) mt1 db student_id event_type event_data
            = (Inr first, db')
          \<and> check_and_award_badges None (\<lambda>_. None) mt2 db' student_id event_type event_data
            = (Inr second, db'')
          \<and> badge_id badge \<in> info_badge_id ` set first
          \<and> badge_id badge \<notin> info_badge_id ` set second))"
proof (intro conjI impI)
  assume "(student_id, badge_id badge) \<in> set (user_badges_tbl (pending db))"
  then show "award_badge commit_fault_of db student_id badge = (None, db, False)"
    by (rule award_badge_existing)
next
  assume "check_and_award_badges sf1 cf1 mt1 db student_id event_type event_data
            = (Inr earned1, db1)
       \<and> check_and_award_badges sf2 cf2 mt2 db1 student_id event_type event_data
           = (Inr earned2, db2)"
  then show "\<forall>x\<in>set earned1. info_badge_id x \<notin> info_badge_id ` set earned2"
    using second_call_omits by blast
next
  assume a: "badge \<in> set (badges_tbl (pending db)) \<and> is_active badge
       \<and> check_badge_criteria mt1 badge event_type event_data
       \<and> (student_id, badge_id badge) \<notin> set (user_badges_tbl (pending db))"
  from check_and_award_badges_returns [of mt1 db student_id event_type event_data]
  obtain first db' where
    f: "check_and_award_badges None (\<lambda>_. None) mt1 db student_id event_type event_data
          = (Inr first, db')"
    and fe: "award_each (\<lambda>_. None) mt1 student_id event_type event_data
               (filter is_active (badges_tbl (pending db))) [] False db = (Inr first, db')"
    by blast
  from check_and_award_badges_returns [of mt2 db' student_id event_type event_data]
  obtain second db'' where
    s: "check_and_award_badges None (\<lambda>_. None) mt2 db' student_id event_type event_data
          = (Inr second, db'')"
    by blast
  from a have m: "badge \<in> set (filter is_active (badges_tbl (pending db)))" by simp
  from a have fresh: "badge_id badge \<in> info_badge_id ` set []
         \<or> (student_id, badge_id badge) \<notin> set (user_badges_tbl (pending db))"
    by simp
  from a have c: "check_badge_criteria mt1 badge event_type event_data" by simp
  from award_each_awards [OF m c fresh fe]
  have in1: "badge_id badge \<in> info_badge_id ` set first" .
  then obtain x where x: "x \<in> set first" "info_badge_id x = badge_id badge" by auto
  from second_call_omits [OF f s x(1)] x(2)
  have "badge_id badge \<notin> info_badge_id ` set second" by simp
  with f s in1 show "\<exists>first db' second db''.
          check_and_award_badges None (\<lambda>_. None) mt1 db student_id event_type event_data
            = (Inr first, db')
          \<and> check_and_award_badges None (\<lambda>_. None) mt2 db' student_id event_type event_data
            = (Inr second, db'')
          \<and> badge_id badge \<in> info_badge_id ` set first
          \<and> badge_id badge \<notin> info_badge_id ` set second"
    by blast
qed

lemma first_call_example:
  "check_and_award_badges None (\<lambda>_. None) 0
       (session_of (empty_tables\<lparr>badges_tbl := [consistency_king]\<rparr>))
       ''alice'' ''daily_streak'' (streak_event 7)
     = (Inr [badge_info_of consistency_king],
        session_of (empty_tables\<lparr>badges_tbl := [consistency_king],
                                   user_badges_tbl := [(''alice'', ''b1'')]\<rparr>))"
  by (simp add: check_and_award_badges_def session_of_def empty_tables_def consistency_king_def
      streak_event_def check_badge_criteria_def get_or_def award_badge_def add_user_badge_def
      Let_def commit_def)

lemma second_call_example:
  "check_and_award_badges None (\<lambda>_. None) 0
       (session_of (empty_tables\<lparr>badges_tbl := [consistency_king],
                                   user_badges_tbl := [(''alice'', ''b1'')]\<rparr>))
       ''alice'' ''daily_streak'' (streak_event 7)
     = (Inr [],
        session_of (empty_tables\<lparr>badges_tbl := [consistency_king],
                                   user_badges_tbl := [(''alice'', ''b1'')]\<rparr>))"
  by (simp add: check_and_award_badges_def session_of_def empty_tables_def consistency_king_def
      streak_event_def check_badge_criteria_def get_or_def award_badge_def Let_def)

text \<open>
  A failed commit: with two qualifying badges, the commit of the first award fails, the
  session is rolled back, and reading the second badge raises; with the failing badge
  last, the call returns and reports nothing.
\<close>

lemma failed_commit_then_next_badge_example:
  "check_and_award_badges None
       (\<lambda>b. if b = ''b1'' then Some (SQLAlchemyError ''connection lost'') else None) 0
       (session_of (empty_tables\<lparr>badges_tbl :=
          [consistency_king, consistency_king\<lparr>badge_id := ''b2''\<rparr>]\<rparr>))
       ''alice'' ''daily_streak'' (streak_event 7)
     = (Inl MissingGreenlet,
        session_of (empty_tables\<lparr>badges_tbl :=
          [consistency_king, consistency_king\<lparr>badge_id := ''b2''\<rparr>]\<rparr>))"
  by (simp add: check_and_award_badges_def session_of_def empty_tables_def consistency_king_def
      streak_event_def check_badge_criteria_def get_or_def award_badge_def add_user_badge_def
      Let_def commit_def rollback_def)

lemma failed_commit_of_last_badge_example:
  "check_and_award_badges None (\<lambda>b. Some (SQLAlchemyError ''connection lost'')) 0
       (session_of (empty_tables\<lparr>badges_tbl := [consistency_king]\<rparr>))
       ''alice'' ''daily_streak'' (streak_event 7)
     = (Inr [], session_of (empty_tables\<lparr>badges_tbl := [consistency_king]\<rparr>))"
  by (simp add: check_and_award_badges_def session_of_def empty_tables_def consistency_king_def
      streak_event_def check_badge_criteria_def get_or_def award_badge_def add_user_badge_def
      Let_def commit_def rollback_def)

theorem badge_awarded_at_most_once_witness:
  "check_and_award_badges None (\<lambda>_. None) 0
       (session_of (empty_tables\<lparr>badges_tbl := [consistency_king]\<rparr>))
       ''alice'' ''daily_streak'' (streak_event 7)
     = (Inr [badge_info_of consistency_king],
        session_of (empty_tables\<lparr>badges_tbl := [consistency_king],
                                   user_badges_tbl := [(''alice'', ''b1'')]\<rparr>))
   \<and> check_and_award_badges None (\<lambda>_. None) 0
       (session_of (empty_tables\<lparr>badges_tbl := [consistency_king],
                                   user_badges_tbl := [(''alice'', ''b1'')]\<rparr>))
       ''alice'' ''daily_streak'' (streak_event 7)
     = (Inr [],
        session_of (empty_tables\<lparr>badges_tbl := [consistency_king],
                                   user_badges_tbl := [(''alice'', ''b1'')]\<rparr>))
   \<and> award_badge (\<lambda>_. None)
       (session_of (empty_tables\<lparr>badges_tbl := [consistency_king],
                                   user_badges_tbl := [(''alice'', ''b1'')]\<rparr>))
       ''alice'' consistency_king
     = (None, session_of (empty_tables\<lparr>badges_tbl := [consistency_king],
                                   user_badges_tbl := [(''alice'', ''b1'')]\<rparr>), False)
   \<and> info_badge_id (badge_info_of consistency_king)
         \<notin> info_badge_id ` set ([] :: badge_info list)
   \<and> (\<exists>first db' second db''.
          check_and_award_badges None (\<lambda>_. None) 0
              (session_of (empty_tables\<lparr>badges_tbl := [consistency_king]\<rparr>))
              ''alice'' ''daily_streak'' (streak_event 7) = (Inr first, db')
          \<and> check_and_award_badges None (\<lambda>_. None) 0 db'
              ''alice'' ''daily_streak'' (streak_event 7) = (Inr second, db'')
          \<and> badge_id consistency_king \<in> info_badge_id ` set first
          \<and> badge_id consistency_king \<notin> info_badge_id ` set second)"
proof -
  let ?db = "session_of (empty_tables\<lparr>badges_tbl := [consistency_king]\<rparr>)"
  let ?db1 = "session_of (empty_tables\<lparr>badges_tbl := [consistency_king],
                                   user_badges_tbl := [(''alice'', ''b1'')]\<rparr>)"
  note th = badge_awarded_at_most_once
    [where student_id = "''alice''" and badge = consistency_king and db = ?db1
       and commit_fault_of = "\<lambda>_. None"]
  have ex: "(''alice'', badge_id consistency_king) \<in> set (user_badges_tbl (pending ?db1))"
    by (simp add: session_of_def consistency_king_def)
  from th [of None "\<lambda>_. None" 0 "''daily_streak''" "streak_event 7" "[]" ?db1
              None "\<lambda>_. None" 0 "[]" ?db1] ex
  have a: "award_badge (\<lambda>_. None) ?db1 ''alice'' consistency_king = (None, ?db1, False)"
    by blast
  have b: "info_badge_id (badge_info_of consistency_king)
         \<notin> info_badge_id ` set ([] :: badge_info list)"
    by simp
  have q: "consistency_king \<in> set (badges_tbl (pending ?db)) \<and> is_active consistency_king
       \<and> check_badge_criteria 0 consistency_king ''daily_streak'' (streak_event 7)
       \<and> (''alice'', badge_id consistency_king) \<notin> set (user_badges_tbl (pending ?db))"
    by (simp add: session_of_def empty_tables_def consistency_king_def streak_event_def
        check_badge_criteria_def get_or_def)
  note th3 = badge_awarded_at_most_once
    [where student_id = "''alice''" and badge = consistency_king and db = ?db
       and ?mt1.0 = 0 and ?mt2.0 = 0 and event_type = "''daily_streak''"
       and event_data = "streak_event 7"]
  from th3 q
  have c: "\<exists>first db' second db''.
          check_and_award_badges None (\<lambda>_. None) 0 ?db
              ''alice'' ''daily_streak'' (streak_event 7) = (Inr first, db')
          \<and> check_and_award_badges None (\<lambda>_. None) 0 db'
              ''alice'' ''daily_streak'' (streak_event 7) = (Inr second, db'')
          \<and> badge_id consistency_king \<in> info_badge_id ` set first
          \<and> badge_id consistency_king \<notin> info_badge_id ` set second"
    by blast
  from first_call_example second_call_example a b c show ?thesis by blast
qed

section \<open>Streak engine: results\<close>

lemma date_less_irrefl: "\<not> date_less d d"
  by (simp add: date_less_def)

lemma date_less_asym: "date_less a b \<Longrightarrow> \<not> date_less b a"
  by (auto simp: date_less_def)

lemma prev_day_less:
  assumes "valid_date d" "prev_day d = Inr d'"
  shows "date_less d' d"
  using assms by (auto simp: prev_day_def date_less_def valid_date_def split: if_splits)

lemma date_add_minus_1: "date_add d (- 1) = prev_day d"
  by (cases "prev_day d") (simp_all add: date_add_def)

lemma yesterday_less:
  assumes "valid_date today" "date_add today (- 1) = Inr yesterday"
  shows "date_less yesterday today"
  using assms prev_day_less by (simp add: date_add_minus_1)

lemma award_badge_frame:
  assumes "committed db = pending db" "award_badge cf db s b = (r, db', x)"
  shows "committed db' = pending db' \<and> streaks_tbl (pending db') = streaks_tbl (pending db)"
  using award_badge_cases [OF assms(2)] assms(1)
  by (auto simp: add_user_badge_def)

lemma award_each_frame:
  "committed db = pending db \<Longrightarrow> award_each cf mt s et ed badges acc x db = (r, db') \<Longrightarrow>
     committed db' = pending db' \<and> streaks_tbl (pending db') = streaks_tbl (pending db)"
proof (induction badges arbitrary: acc x db)
  case Nil
  then show ?case by simp
next
  case (Cons b badges)
  show ?case
  proof (cases x)
    case True
    with Cons.prems show ?thesis by simp
  next
    case False
    note nx = this
    show ?thesis
    proof (cases "check_badge_criteria mt b et ed")
      case False
      with nx Cons.prems(2) have "award_each cf mt s et ed badges acc False db = (r, db')"
        by simp
      from Cons.IH [OF Cons.prems(1) this] show ?thesis .
    next
      case True
      obtain u db1 x1 where a: "award_badge cf db s b = (u, db1, x1)"
        by (cases "award_badge cf db s b") auto
      from award_badge_frame [OF Cons.prems(1) a]
      have f1: "committed db1 = pending db1"
        "streaks_tbl (pending db1) = streaks_tbl (pending db)"
        by simp_all
      from award_each_step [OF True a, of badges acc] nx Cons.prems(2)
      have rest: "award_each cf mt s et ed badges
                    (case u of None \<Rightarrow> acc | Some ub \<Rightarrow> acc @ [badge_info_of b]) x1 db1
                  = (r, db')"
        by simp
      from Cons.IH [OF f1(1) rest] f1(2) show ?thesis by simp
    qed
  qed
qed

lemma commit_and_check_badges_ok:
  assumes "commit_fault f = None"
  shows "\<exists>db'. commit_and_check_badges f None (\<lambda>_. None) mt s streak db = (Inr streak, db')
           \<and> streaks_tbl (committed db') = streaks_tbl (pending db)
           \<and> streaks_tbl (pending db') = streaks_tbl (pending db)"
proof -
  let ?db1 = "db\<lparr>committed := pending db\<rparr>"
  let ?ev = "\<lparr> streak_days = Some (current_streak streak), subject = None,
                   subject_completion = None \<rparr>"
  from check_and_award_badges_returns [of mt ?db1 s "''daily_streak''" ?ev]
  obtain earned db' where
    c: "check_and_award_badges None (\<lambda>_. None) mt ?db1 s ''daily_streak'' ?ev
          = (Inr earned, db')"
    and e: "award_each (\<lambda>_. None) mt s ''daily_streak'' ?ev
              (filter is_active (badges_tbl (pending ?db1))) [] False ?db1 = (Inr earned, db')"
    by blast
  have "committed ?db1 = pending ?db1" by simp
  from award_each_frame [OF this e]
  have "committed db' = pending db'" "streaks_tbl (pending db') = streaks_tbl (pending db)"
    by simp_all
  with c assms show ?thesis
    by (simp add: commit_and_check_badges_def commit_def)
qed

lemma update_streak_commits:
  assumes "commit_fault f = None"
  shows "\<exists>db'. commit_and_check_badges f None (\<lambda>_. None) mt s streak (put_streak s streak db)
                 = (Inr streak, db')
           \<and> streaks_tbl (committed db') s = Some streak
           \<and> streaks_tbl (pending db') s = Some streak"
  using commit_and_check_badges_ok [OF assms, of mt s streak "put_streak s streak db"]
  by (auto simp: put_streak_def)

text \<open>
  C3. \<^verbatim>\<open>update_streak\<close>, called by the student, with no storage failure (none in the
  streak's own commit, none in the badge check that follows it), on a day \<open>today\<close> that
  has a yesterday: with no streak row it creates and stores the row
  \<open>current_streak = 1\<close>, \<open>longest_streak = 1\<close>, \<open>streak_started_date = today\<close>,
  \<open>total_active_days = 1\<close>; with a row whose last activity is today it returns the row
  and changes nothing; with last activity yesterday it adds 1 to \<open>current_streak\<close>,
  makes \<open>longest_streak\<close> the maximum of its old value and the new \<open>current_streak\<close>,
  and adds 1 to \<open>total_active_days\<close>; with last activity two or more days ago it sets
  \<open>current_streak\<close> to 1 and \<open>streak_started_date\<close> to today, and adds 1 to
  \<open>total_active_days\<close>.
\<close>

theorem update_streak_step:
  assumes "sub current_user = student_id" and "f = no_faults" and "valid_date today"
    and "date_add today (- 1) = Inr yesterday"
  shows "(streaks_tbl (pending db) student_id = None \<longrightarrow>
           (\<exists>db'. update_streak today f None (\<lambda>_. None) mt db student_id current_user =
                    (Inr \<lparr> current_streak = 1, longest_streak = 1,
                           last_activity_date = Some today,
                           streak_started_date = Some today,
                           total_active_days = 1 \<rparr>, db')
                \<and> streaks_tbl (committed db') student_id =
                    Some \<lparr> current_streak = 1, longest_streak = 1,
                           last_activity_date = Some today,
                           streak_started_date = Some today,
                           total_active_days = 1 \<rparr>))
     \<and> (\<forall>streak. streaks_tbl (pending db) student_id = Some streak \<longrightarrow>
           (last_activity_date streak = Some today \<longrightarrow>
              update_streak today f None (\<lambda>_. None) mt db student_id current_user = (Inr streak, db))
         \<and> (last_activity_date streak = Some yesterday \<longrightarrow>
              (\<exists>db'. update_streak today f None (\<lambda>_. None) mt db student_id current_user =
                    (Inr (streak\<lparr>current_streak := current_streak streak + 1,
                            longest_streak :=
                              max (longest_streak streak) (current_streak streak + 1),
                            last_activity_date := Some today,
                            total_active_days := total_active_days streak + 1\<rparr>), db')
                 \<and> streaks_tbl (committed db') student_id =
                    Some (streak\<lparr>current_streak := current_streak streak + 1,
                            longest_streak :=
                              max (longest_streak streak) (current_streak streak + 1),
                            last_activity_date := Some today,
                            total_active_days := total_active_days streak + 1\<rparr>)))
         \<and> ((\<exists>l. last_activity_date streak = Some l \<and> valid_date l
                  \<and> toordinal l \<le> toordinal today - 2) \<longrightarrow>
              (\<exists>db'. update_streak today f None (\<lambda>_. None) mt db student_id current_user =
                    (Inr (streak\<lparr>current_streak := 1,
                            streak_started_date := Some today,
                            last_activity_date := Some today,
                            total_active_days := total_active_days streak + 1\<rparr>), db')
                 \<and> streaks_tbl (committed db') student_id =
                    Some (streak\<lparr>current_streak := 1,
                            streak_started_date := Some today,
                            last_activity_date := Some today,
                            total_active_days := total_active_days streak + 1\<rparr>))))"
proof -
  from assms(2) have nf: "select_fault f = None" "commit_fault f = None"
    by (simp_all add: no_faults_def)
  from yesterday_less [OF assms(3,4)] have yt: "yesterday \<noteq> today"
    using date_less_irrefl by auto
  from date_add_toordinal [OF assms(3,4)]
  have yo: "toordinal yesterday = toordinal today - 1" by simp
  note cm = update_streak_commits [OF nf(2), of mt student_id _ db]
  show ?thesis
  proof (intro conjI allI impI)
    assume "streaks_tbl (pending db) student_id = None"
    then show "\<exists>db'. update_streak today f None (\<lambda>_. None) mt db student_id current_user =
                    (Inr \<lparr> current_streak = 1, longest_streak = 1,
                           last_activity_date = Some today,
                           streak_started_date = Some today,
                           total_active_days = 1 \<rparr>, db')
                \<and> streaks_tbl (committed db') student_id =
                    Some \<lparr> current_streak = 1, longest_streak = 1,
                           last_activity_date = Some today,
                           streak_started_date = Some today,
                           total_active_days = 1 \<rparr>"
      using cm assms(1) nf(1) by (simp add: update_streak_def Let_def) blast
  next
    fix streak
    assume "streaks_tbl (pending db) student_id = Some streak"
      and "last_activity_date streak = Some today"
    then show "update_streak today f None (\<lambda>_. None) mt db student_id current_user = (Inr streak, db)"
      using assms(1) nf(1) by (simp add: update_streak_def)
  next
    fix streak
    assume s: "streaks_tbl (pending db) student_id = Some streak"
      and l: "last_activity_date streak = Some yesterday"
    let ?s' = "streak\<lparr>current_streak := current_streak streak + 1,
                            longest_streak :=
                              max (longest_streak streak) (current_streak streak + 1),
                            last_activity_date := Some today,
                            total_active_days := total_active_days streak + 1\<rparr>"
    have eq: "(let s = streak\<lparr>current_streak := current_streak streak + 1\<rparr>
               in if current_streak s > longest_streak s
                  then s\<lparr>longest_streak := current_streak s\<rparr> else s)
              = streak\<lparr>current_streak := current_streak streak + 1,
                  longest_streak := max (longest_streak streak) (current_streak streak + 1)\<rparr>"
      by (cases streak) (auto simp: Let_def max_def)
    have "update_streak today f None (\<lambda>_. None) mt db student_id current_user =
            commit_and_check_badges f None (\<lambda>_. None) mt student_id ?s' (put_streak student_id ?s' db)"
      using assms(1,4) nf(1) s l yt unfolding update_streak_def eq by (simp add: Let_def)
    with cm [of ?s']
    show "\<exists>db'. update_streak today f None (\<lambda>_. None) mt db student_id current_user = (Inr ?s', db')
                 \<and> streaks_tbl (committed db') student_id = Some ?s'"
      by auto
  next
    fix streak
    assume s: "streaks_tbl (pending db) student_id = Some streak"
      and "\<exists>l. last_activity_date streak = Some l \<and> valid_date l
                  \<and> toordinal l \<le> toordinal today - 2"
    then obtain l where l: "last_activity_date streak = Some l"
      and o: "toordinal l \<le> toordinal today - 2" by blast
    from o yo have ne: "l \<noteq> today" "l \<noteq> yesterday" by auto
    let ?s' = "streak\<lparr>current_streak := 1,
                            streak_started_date := Some today,
                            last_activity_date := Some today,
                            total_active_days := total_active_days streak + 1\<rparr>"
    have "update_streak today f None (\<lambda>_. None) mt db student_id current_user =
            commit_and_check_badges f None (\<lambda>_. None) mt student_id ?s' (put_streak student_id ?s' db)"
      using assms(1,4) nf(1) s l ne by (simp add: update_streak_def Let_def)
    with cm [of ?s']
    show "\<exists>db'. update_streak today f None (\<lambda>_. None) mt db student_id current_user = (Inr ?s', db')
                 \<and> streaks_tbl (committed db') student_id = Some ?s'"
      by auto
  qed
qed


lemma valid_2024_03_15: "valid_date \<lparr>year = 2024, month = 3, day = 15\<rparr>"
  by code_simp

lemma yesterday_2024_03_15:
  "date_add \<lparr>year = 2024, month = 3, day = 15\<rparr> (- 1) = Inr \<lparr>year = 2024, month = 3, day = 14\<rparr>"
  by code_simp

lemma streak_session_row [simp]:
  "streaks_tbl (pending (streak_session streak)) ''alice'' = Some streak"
  by (simp add: streak_session_def session_of_def)

theorem update_streak_step_witness:
  "(\<exists>db'. update_streak \<lparr>year = 2024, month = 3, day = 15\<rparr> no_faults None (\<lambda>_. None) 0
             (session_of empty_tables) ''alice'' alice =
           (Inr \<lparr> current_streak = 1, longest_streak = 1,
                  last_activity_date = Some \<lparr>year = 2024, month = 3, day = 15\<rparr>,
                  streak_started_date = Some \<lparr>year = 2024, month = 3, day = 15\<rparr>,
                  total_active_days = 1 \<rparr>, db'))
   \<and> update_streak \<lparr>year = 2024, month = 3, day = 15\<rparr> no_faults None (\<lambda>_. None) 0
         (streak_session \<lparr> current_streak = 4, longest_streak = 4,
             last_activity_date = Some \<lparr>year = 2024, month = 3, day = 15\<rparr>,
             streak_started_date = Some \<lparr>year = 2024, month = 3, day = 12\<rparr>,
             total_active_days = 9 \<rparr>) ''alice'' alice =
       (Inr \<lparr> current_streak = 4, longest_streak = 4,
             last_activity_date = Some \<lparr>year = 2024, month = 3, day = 15\<rparr>,
             streak_started_date = Some \<lparr>year = 2024, month = 3, day = 12\<rparr>,
             total_active_days = 9 \<rparr>,
        streak_session \<lparr> current_streak = 4, longest_streak = 4,
             last_activity_date = Some \<lparr>year = 2024, month = 3, day = 15\<rparr>,
             streak_started_date = Some \<lparr>year = 2024, month = 3, day = 12\<rparr>,
             total_active_days = 9 \<rparr>)
   \<and> (\<exists>db'. update_streak \<lparr>year = 2024, month = 3, day = 15\<rparr> no_faults None (\<lambda>_. None) 0
         (streak_session \<lparr> current_streak = 3, longest_streak = 3,
             last_activity_date = Some \<lparr>year = 2024, month = 3, day = 14\<rparr>,
             streak_started_date = Some \<lparr>year = 2024, month = 3, day = 12\<rparr>,
             total_active_days = 8 \<rparr>) ''alice'' alice =
       (Inr \<lparr> current_streak = 4, longest_streak = 4,
             last_activity_date = Some \<lparr>year = 2024, month = 3, day = 15\<rparr>,
             streak_started_date = Some \<lparr>year = 2024, month = 3, day = 12\<rparr>,
             total_active_days = 9 \<rparr>, db'))
   \<and> (\<exists>db'. update_streak \<lparr>year = 2024, month = 3, day = 15\<rparr> no_faults None (\<lambda>_. None) 0
         (streak_session \<lparr> current_streak = 3, longest_streak = 5,
             last_activity_date = Some \<lparr>year = 2024, month = 3, day = 13\<rparr>,
             streak_started_date = Some \<lparr>year = 2024, month = 3, day = 11\<rparr>,
             total_active_days = 8 \<rparr>) ''alice'' alice =
       (Inr \<lparr> current_streak = 1, longest_streak = 5,
             last_activity_date = Some \<lparr>year = 2024, month = 3, day = 15\<rparr>,
             streak_started_date = Some \<lparr>year = 2024, month = 3, day = 15\<rparr>,
             total_active_days = 9 \<rparr>, db'))"
proof -
  let ?today = "\<lparr>year = 2024, month = 3, day = 15\<rparr>"
  have a: "sub alice = ''alice''" by (simp add: alice_def)
  note th = update_streak_step [OF a refl valid_2024_03_15 yesterday_2024_03_15,
      where mt = 0]
  have none: "streaks_tbl (pending (session_of empty_tables)) ''alice'' = None"
    by (simp add: session_of_def empty_tables_def)
  have old: "valid_date \<lparr>year = 2024, month = 3, day = 13\<rparr>
      \<and> toordinal \<lparr>year = 2024, month = 3, day = 13\<rparr> \<le> toordinal ?today - 2"
    by code_simp
  from th [of "session_of empty_tables"] none
  have 1: "\<exists>db'. update_streak ?today no_faults None (\<lambda>_. None) 0
             (session_of empty_tables) ''alice'' alice =
           (Inr \<lparr> current_streak = 1, longest_streak = 1,
                  last_activity_date = Some ?today, streak_started_date = Some ?today,
                  total_active_days = 1 \<rparr>, db')"
    by blast
  let ?r2 = "\<lparr> current_streak = 4, longest_streak = 4,
             last_activity_date = Some ?today,
             streak_started_date = Some \<lparr>year = 2024, month = 3, day = 12\<rparr>,
             total_active_days = 9 \<rparr>"
  from th [of "streak_session ?r2"]
  have 2: "update_streak ?today no_faults None (\<lambda>_. None) 0 (streak_session ?r2) ''alice'' alice
             = (Inr ?r2, streak_session ?r2)"
    by simp
  let ?r3 = "\<lparr> current_streak = 3, longest_streak = 3,
             last_activity_date = Some \<lparr>year = 2024, month = 3, day = 14\<rparr>,
             streak_started_date = Some \<lparr>year = 2024, month = 3, day = 12\<rparr>,
             total_active_days = 8 \<rparr>"
  from th [of "streak_session ?r3"]
  have 3: "\<exists>db'. update_streak ?today no_faults None (\<lambda>_. None) 0 (streak_session ?r3)
               ''alice'' alice =
       (Inr \<lparr> current_streak = 4, longest_streak = 4,
             last_activity_date = Some ?today,
             streak_started_date = Some \<lparr>year = 2024, month = 3, day = 12\<rparr>,
             total_active_days = 9 \<rparr>, db')"
    by auto
  let ?r4 = "\<lparr> current_streak = 3, longest_streak = 5,
             last_activity_date = Some \<lparr>year = 2024, month = 3, day = 13\<rparr>,
             streak_started_date = Some \<lparr>year = 2024, month = 3, day = 11\<rparr>,
             total_active_days = 8 \<rparr>"
  from th [of "streak_session ?r4"] old
  have 4: "\<exists>db'. update_streak ?today no_faults None (\<lambda>_. None) 0 (streak_session ?r4)
               ''alice'' alice =
       (Inr \<lparr> current_streak = 1, longest_streak = 5,
             last_activity_date = Some ?today,
             streak_started_date = Some ?today,
             total_active_days = 9 \<rparr>, db')"
    by auto
  from 1 2 3 4 show ?thesis by blast
qed

text \<open>
  C9. \<^verbatim>\<open>get_student_streak\<close>, for an authorised caller and with no storage failure, on
  a stored streak: when the last activity date is earlier than yesterday, it sets
  \<open>current_streak\<close> to 0 (and clears \<open>streak_started_date\<close>), commits the row, and
  leaves \<open>longest_streak\<close>, \<open>total_active_days\<close> and \<open>last_activity_date\<close> as they
  were; when the last activity date is today or yesterday, it returns the row and the
  session and the database are left exactly as they were.
\<close>

theorem get_student_streak_lazy_reset:
  assumes "sub current_user = student_id \<or> ''instructor'' \<in> set (roles current_user)"
    and "f = no_faults" and "valid_date today" and "date_add today (- 1) = Inr yesterday"
    and "streaks_tbl (pending db) student_id = Some streak"
    and "last_activity_date streak = Some l"
  shows "(date_less l yesterday \<longrightarrow>
           (\<exists>streak' db'. get_student_streak today f db student_id current_user = (Inr streak', db')
              \<and> streak' = streak\<lparr>current_streak := 0, streak_started_date := None\<rparr>
              \<and> streaks_tbl (committed db') student_id = Some streak'
              \<and> current_streak streak' = 0
              \<and> longest_streak streak' = longest_streak streak
              \<and> total_active_days streak' = total_active_days streak
              \<and> last_activity_date streak' = last_activity_date streak))
     \<and> (l = today \<or> l = yesterday \<longrightarrow>
           get_student_streak today f db student_id current_user = (Inr streak, db))"
proof -
  from assms(2) have nf: "select_fault f = None" "commit_fault f = None"
    by (simp_all add: no_faults_def)
  show ?thesis
  proof (intro conjI impI)
    assume "date_less l yesterday"
    then show "\<exists>streak' db'. get_student_streak today f db student_id current_user
                  = (Inr streak', db')
              \<and> streak' = streak\<lparr>current_streak := 0, streak_started_date := None\<rparr>
              \<and> streaks_tbl (committed db') student_id = Some streak'
              \<and> current_streak streak' = 0
              \<and> longest_streak streak' = longest_streak streak
              \<and> total_active_days streak' = total_active_days streak
              \<and> last_activity_date streak' = last_activity_date streak"
      using assms(1,4,5,6) nf
      by (auto simp: get_student_streak_def reset_if_broken_def Let_def commit_def put_streak_def)
  next
    assume "l = today \<or> l = yesterday"
    with yesterday_less [OF assms(3,4)] have "\<not> date_less l yesterday"
      using date_less_asym date_less_irrefl by blast
    then show "get_student_streak today f db student_id current_user = (Inr streak, db)"
      using assms(1,4,5,6) nf
      by (auto simp: get_student_streak_def reset_if_broken_def)
  qed
qed

text \<open>
  C10. When the read endpoint creates the streak row (no row existed), the row has
  \<open>current_streak = 0\<close> and \<open>last_activity_date = today\<close>; an \<^verbatim>\<open>update_streak\<close> on
  the same day then finds the last activity date equal to today and returns the row
  unchanged: \<open>current_streak\<close> is still 0 and \<open>total_active_days\<close> is still 0.
\<close>

theorem streak_created_by_read_blocks_first_activity:
  assumes "sub current_user = student_id" and "valid_date today"
    and "date_add today (- 1) = Inr yesterday"
    and "streaks_tbl (pending db) student_id = None"
  shows "\<exists>created db'.
           get_student_streak today no_faults db student_id current_user = (Inr created, db')
           \<and> streaks_tbl (committed db') student_id = Some created
           \<and> current_streak created = 0
           \<and> last_activity_date created = Some today
           \<and> update_streak today no_faults bsf bcf mt db' student_id current_user
                = (Inr created, db')
           \<and> total_active_days created = 0"
proof -
  from yesterday_less [OF assms(2,3)] have n: "\<not> date_less today yesterday"
    using date_less_asym by blast
  let ?db' = "(put_streak student_id (default_Streak today) db)
                \<lparr>committed := pending (put_streak student_id (default_Streak today) db)\<rparr>"
  have g: "get_student_streak today no_faults db student_id current_user
             = (Inr (default_Streak today), ?db')"
    using assms(1,3,4) n
    by (simp add: get_student_streak_def reset_if_broken_def Let_def commit_def no_faults_def
        default_Streak_def)
  have r: "streaks_tbl (pending ?db') student_id = Some (default_Streak today)"
    "streaks_tbl (committed ?db') student_id = Some (default_Streak today)"
    by (simp_all add: put_streak_def)
  have u: "update_streak today no_faults bsf bcf mt ?db' student_id current_user
             = (Inr (default_Streak today), ?db')"
    using assms(1) r(1) unfolding update_streak_def
    by (simp add: no_faults_def default_Streak_def)
  from g r(2) u show ?thesis by (auto simp: default_Streak_def)
qed


theorem get_student_streak_lazy_reset_witness:
  "(\<exists>db'. get_student_streak \<lparr>year = 2024, month = 3, day = 15\<rparr> no_faults
         (streak_session \<lparr> current_streak = 3, longest_streak = 5,
             last_activity_date = Some \<lparr>year = 2024, month = 3, day = 13\<rparr>,
             streak_started_date = Some \<lparr>year = 2024, month = 3, day = 11\<rparr>,
             total_active_days = 8 \<rparr>) ''alice'' alice =
       (Inr \<lparr> current_streak = 0, longest_streak = 5,
             last_activity_date = Some \<lparr>year = 2024, month = 3, day = 13\<rparr>,
             streak_started_date = None, total_active_days = 8 \<rparr>, db')
      \<and> streaks_tbl (committed db') ''alice'' =
          Some \<lparr> current_streak = 0, longest_streak = 5,
             last_activity_date = Some \<lparr>year = 2024, month = 3, day = 13\<rparr>,
             streak_started_date = None, total_active_days = 8 \<rparr>)
   \<and> get_student_streak \<lparr>year = 2024, month = 3, day = 15\<rparr> no_faults
         (streak_session \<lparr> current_streak = 3, longest_streak = 3,
             last_activity_date = Some \<lparr>year = 2024, month = 3, day = 14\<rparr>,
             streak_started_date = Some \<lparr>year = 2024, month = 3, day = 12\<rparr>,
             total_active_days = 8 \<rparr>) ''alice'' alice =
       (Inr \<lparr> current_streak = 3, longest_streak = 3,
             last_activity_date = Some \<lparr>year = 2024, month = 3, day = 14\<rparr>,
             streak_started_date = Some \<lparr>year = 2024, month = 3, day = 12\<rparr>,
             total_active_days = 8 \<rparr>,
        streak_session \<lparr> current_streak = 3, longest_streak = 3,
             last_activity_date = Some \<lparr>year = 2024, month = 3, day = 14\<rparr>,
             streak_started_date = Some \<lparr>year = 2024, month = 3, day = 12\<rparr>,
             total_active_days = 8 \<rparr>)"
proof -
  have a: "sub alice = ''alice'' \<or> ''instructor'' \<in> set (roles alice)"
    by (simp add: alice_def)
  note th = get_student_streak_lazy_reset [OF a refl valid_2024_03_15 yesterday_2024_03_15]
  let ?r1 = "\<lparr> current_streak = 3, longest_streak = 5,
             last_activity_date = Some \<lparr>year = 2024, month = 3, day = 13\<rparr>,
             streak_started_date = Some \<lparr>year = 2024, month = 3, day = 11\<rparr>,
             total_active_days = 8 \<rparr>"
  have old: "date_less \<lparr>year = 2024, month = 3, day = 13\<rparr> \<lparr>year = 2024, month = 3, day = 14\<rparr>"
    by (simp add: date_less_def)
  have l1: "last_activity_date ?r1 = Some \<lparr>year = 2024, month = 3, day = 13\<rparr>" by simp
  from th [OF streak_session_row l1] old
  have 1: "\<exists>db'. get_student_streak \<lparr>year = 2024, month = 3, day = 15\<rparr> no_faults
         (streak_session ?r1) ''alice'' alice =
       (Inr \<lparr> current_streak = 0, longest_streak = 5,
             last_activity_date = Some \<lparr>year = 2024, month = 3, day = 13\<rparr>,
             streak_started_date = None, total_active_days = 8 \<rparr>, db')
      \<and> streaks_tbl (committed db') ''alice'' =
          Some \<lparr> current_streak = 0, longest_streak = 5,
             last_activity_date = Some \<lparr>year = 2024, month = 3, day = 13\<rparr>,
             streak_started_date = None, total_active_days = 8 \<rparr>"
    by auto
  let ?r2 = "\<lparr> current_streak = 3, longest_streak = 3,
             last_activity_date = Some \<lparr>year = 2024, month = 3, day = 14\<rparr>,
             streak_started_date = Some \<lparr>year = 2024, month = 3, day = 12\<rparr>,
             total_active_days = 8 \<rparr>"
  have l2: "last_activity_date ?r2 = Some \<lparr>year = 2024, month = 3, day = 14\<rparr>" by simp
  from th [OF streak_session_row l2]
  have 2: "get_student_streak \<lparr>year = 2024, month = 3, day = 15\<rparr> no_faults
         (streak_session ?r2) ''alice'' alice = (Inr ?r2, streak_session ?r2)"
    by simp
  from 1 2 show ?thesis by blast
qed

theorem streak_created_by_read_blocks_first_activity_witness:
  "\<exists>created db'.
      get_student_streak \<lparr>year = 2024, month = 3, day = 15\<rparr> no_faults
        (session_of empty_tables) ''alice'' alice = (Inr created, db')
      \<and> current_streak created = 0
      \<and> last_activity_date created = Some \<lparr>year = 2024, month = 3, day = 15\<rparr>
      \<and> update_streak \<lparr>year = 2024, month = 3, day = 15\<rparr> no_faults None (\<lambda>_. None) 0 db'
           ''alice'' alice = (Inr created, db')
      \<and> total_active_days created = 0"
proof -
  have a: "sub alice = ''alice''" by (simp add: alice_def)
  have none: "streaks_tbl (pending (session_of empty_tables)) ''alice'' = None"
    by (simp add: session_of_def empty_tables_def)
  from streak_created_by_read_blocks_first_activity
         [OF a valid_2024_03_15 yesterday_2024_03_15 none, of None "\<lambda>_. None" 0]
  show ?thesis by blast
qed

end
